theory Spec2Isabelle
  imports Main
begin

section \<open>The softphone's signalling client (lib/sipClient), as a shallow embedding\<close>

text \<open>
  The module keeps three module-level variables (\<open>ua\<close>, \<open>currentSession\<close>,
  \<open>isOnHold\<close>; \<open>registerer\<close> is only written) and works on objects of the SIP
  library and of the browser: sessions, their session description handler, its peer
  connection, the connection's RTP senders and the senders' media tracks. Objects that
  are reached through more than one reference (a session is held by \<open>currentSession\<close>
  and by the caller; a track is held by a sender, by a stream and by a local variable) live
  in a store and are named by their address; everything else is a plain record.
\<close>

subsection \<open>Browser objects\<close>

datatype TrackKind = audio | video

datatype ReadyState = live | ended

text \<open>A \<open>MediaStreamTrack\<close>: the four attributes the module reads, and the
  \<open>facingMode\<close> of \<open>getSettings()\<close> (\<open>None\<close> is \<open>undefined\<close>).\<close>

record MediaStreamTrack =
  kind :: TrackKind
  enabled :: bool
  readyState :: ReadyState
  muted :: bool
  facingMode :: "string option"

text \<open>An \<open>RTCRtpSender\<close>: \<open>track\<close> is the address of its track, \<open>None\<close> is \<open>null\<close>.\<close>

record RTCRtpSender =
  track :: "nat option"

text \<open>An \<open>RTCPeerConnection\<close>. \<open>localDescription\<close> and \<open>remoteDescription\<close> hold the
  \<open>sdp\<close> text when the description is set and its text is not empty (the only case
  the module tells apart).\<close>

record RTCPeerConnection =
  senders :: "RTCRtpSender list"
  connectionState :: string
  iceConnectionState :: string
  signalingState :: string
  localDescription :: "string option"
  remoteDescription :: "string option"

record SessionDescriptionHandler =
  peerConnection :: "RTCPeerConnection option"

subsection \<open>Objects of the SIP library\<close>

datatype SessionState = Initial | Establishing | Established | Terminating | Terminated

text \<open>What \<open>instanceof\<close> tells of a session.\<close>

datatype SessionClass = Inviter | Invitation

text \<open>A parsed URI, kept as the text it was parsed from.\<close>

datatype URI = URI string

text \<open>The methods of a session the module invokes: \<open>invite()\<close>, \<open>accept(options)\<close>
  (with the \<open>video\<close> constraint of its options), \<open>bye()\<close>, \<open>cancel()\<close> and
  \<open>reject()\<close>. The library's work behind them is not part of the module: each returns a
  promise, and the session records which were invoked, in order. The module never
  assigns \<open>state\<close> or \<open>sessionDescriptionHandler\<close>; it reads them as the library left
  them.\<close>

datatype SipRequest = Invite | Accept bool | Bye | Cancel | Reject

text \<open>The state-change listeners the module registers, by the closure they are:
  the SDP interceptor of \<open>makeCall\<close>, the two track binders (with the tracks of the
  captured stream), the two audio checks (with \<open>withVideo\<close>) and the cleanup listener
  of \<open>hangupCall\<close>.\<close>

datatype Listener =
    SdpIntercept
  | AddTracksOnEstablishing "nat list"
  | CheckAudioOnEstablished bool
  | CleanupOnTerminated

text \<open>\<open>targetURI\<close> and \<open>constraints_video\<close> are the constructor arguments of an
  \<open>Inviter\<close> (the target, and the \<open>video\<close> constraint of its options); they are \<open>None\<close>
  on a session the module did not construct.\<close>

record Session =
  sessionClass :: SessionClass
  state :: SessionState
  sessionDescriptionHandler :: "SessionDescriptionHandler option"
  targetURI :: "URI option"
  constraints_video :: "bool option"
  listeners :: "Listener list"
  requests :: "SipRequest list"

record UserAgent =
  configuration_uri :: "string option"

subsection \<open>Errors and calls into the browser\<close>

text \<open>A thrown value: a \<open>DOMException\<close> with its name and message, or any other
  \<open>Error\<close> with its message.\<close>

datatype JsError = DOMException string string | Error string

text \<open>The argument of \<open>getUserMedia\<close>: \<open>audio\<close> is a boolean; \<open>video\<close> is
  \<open>false\<close>, \<open>true\<close> or \<open>{ facingMode: m }\<close>.\<close>

datatype VideoConstraint = NoVideo | AnyVideo | Facing string

record MediaStreamConstraints =
  c_audio :: bool
  c_video :: VideoConstraint

text \<open>The calls into the browser that acquire, move or release media, in the order
  they are made: \<open>getUserMedia(c)\<close>, \<open>replaceTrack\<close> on the sender at an index of
  \<open>getSenders()\<close> with the new track, and \<open>stop()\<close> on a track.\<close>

datatype Effect =
    GetUserMedia MediaStreamConstraints
  | ReplaceTrack nat "nat option"
  | StopTrack nat

subsection \<open>The module's state\<close>

text \<open>\<open>ua\<close>, \<open>currentSession\<close> and \<open>isOnHold\<close> are the module's variables
  (\<open>None\<close> is \<open>undefined\<close> or \<open>null\<close>); \<open>sessions\<close> and \<open>tracks\<close> are the stores,
  \<open>next_session\<close> and \<open>next_track\<close> the first addresses not yet given out, and
  \<open>effects\<close> the calls into the browser made so far.\<close>

record World =
  ua :: "UserAgent option"
  currentSession :: "nat option"
  isOnHold :: bool
  sessions :: "nat \<Rightarrow> Session"
  tracks :: "nat \<Rightarrow> MediaStreamTrack"
  next_session :: nat
  next_track :: nat
  effects :: "Effect list"

subsection \<open>muteCall and holdCall\<close>

text \<open>The body of \<open>muteCall\<close>'s \<open>forEach\<close>: an audio track gets \<open>enabled = !mute\<close>.\<close>

definition mute_sender :: "bool \<Rightarrow> RTCRtpSender \<Rightarrow> (nat \<Rightarrow> MediaStreamTrack) \<Rightarrow> (nat \<Rightarrow> MediaStreamTrack)" where
  "mute_sender mute sender tr =
     (case track sender of
        None \<Rightarrow> tr
      | Some t \<Rightarrow> if kind (tr t) = audio then tr(t := (tr t)\<lparr>enabled := \<not> mute\<rparr>) else tr)"

definition muteCall :: "bool \<Rightarrow> World \<Rightarrow> bool \<times> World" where
  "muteCall mute w =
     (case currentSession w of
        None \<Rightarrow> (False, w)
      | Some sid \<Rightarrow>
          (case sessionDescriptionHandler (sessions w sid) of
             None \<Rightarrow> (False, w)
           | Some sdh \<Rightarrow>
               (case peerConnection sdh of
                  None \<Rightarrow> (False, w)
                | Some pc \<Rightarrow>
                    (True, w\<lparr>tracks := fold (mute_sender mute) (senders pc) (tracks w)\<rparr>))))"

text \<open>The body of \<open>holdCall\<close>'s \<open>forEach\<close>: every track gets \<open>enabled = !hold\<close>.\<close>

definition hold_sender :: "bool \<Rightarrow> RTCRtpSender \<Rightarrow> (nat \<Rightarrow> MediaStreamTrack) \<Rightarrow> (nat \<Rightarrow> MediaStreamTrack)" where
  "hold_sender hold sender tr =
     (case track sender of
        None \<Rightarrow> tr
      | Some t \<Rightarrow> tr(t := (tr t)\<lparr>enabled := \<not> hold\<rparr>))"

text \<open>\<open>holdCall\<close> assigns \<open>isOnHold\<close> before it reads the peer connection without a
  check: with no peer connection \<open>pc.getSenders()\<close> is a TypeError, which the
  \<open>catch\<close> logs, and the function returns \<open>false\<close> with \<open>isOnHold\<close> already changed.\<close>

definition holdCall :: "bool \<Rightarrow> World \<Rightarrow> bool \<times> World" where
  "holdCall hold w =
     (case currentSession w of
        None \<Rightarrow> (False, w)
      | Some sid \<Rightarrow>
          (case sessionDescriptionHandler (sessions w sid) of
             None \<Rightarrow> (False, w)
           | Some sdh \<Rightarrow>
               (case peerConnection sdh of
                  None \<Rightarrow> (False, w\<lparr>isOnHold := hold\<rparr>)
                | Some pc \<Rightarrow>
                    (True, w\<lparr>isOnHold := hold,
                              tracks := fold (hold_sender hold) (senders pc) (tracks w)\<rparr>))))"

definition isCallOnHold :: "World \<Rightarrow> bool" where
  "isCallOnHold w = isOnHold w"

text \<open>A sequence of calls of the two, each on the state the one before left.\<close>

datatype ControlCall = MuteCall bool | HoldCall bool

fun control_call :: "ControlCall \<Rightarrow> World \<Rightarrow> World" where
  "control_call (MuteCall b) w = snd (muteCall b w)"
| "control_call (HoldCall b) w = snd (holdCall b w)"

definition control_calls :: "ControlCall list \<Rightarrow> World \<Rightarrow> World" where
  "control_calls cs w = fold control_call cs w"

fun call_arg :: "ControlCall \<Rightarrow> bool" where
  "call_arg (MuteCall b) = b"
| "call_arg (HoldCall b) = b"

text \<open>The two flags as the specification names them: the argument of the last
  \<open>muteCall\<close>, and of the last \<open>holdCall\<close>, each \<open>False\<close> when there was none.\<close>

definition spec_muted :: "ControlCall list \<Rightarrow> bool" where
  "spec_muted cs = fold (\<lambda>c m. case c of MuteCall b \<Rightarrow> b | HoldCall _ \<Rightarrow> m) cs False"

definition spec_onHold :: "ControlCall list \<Rightarrow> bool" where
  "spec_onHold cs = fold (\<lambda>c h. case c of HoldCall b \<Rightarrow> b | MuteCall _ \<Rightarrow> h) cs False"

subsection \<open>The invitation delegate and hangupCall\<close>

text \<open>The \<open>onInvite\<close> delegate that \<open>initSIP\<close> installs: an arriving invitation
  becomes the current session (the caller's own callback is outside the module).\<close>

definition onInvite :: "nat \<Rightarrow> World \<Rightarrow> World" where
  "onInvite invitation w = w\<lparr>currentSession := Some invitation\<rparr>"

text \<open>The request \<open>hangupCall\<close> sends, by the session's state and class; in any state
  but \<open>Established\<close> and \<open>Initial\<close> it sends none.\<close>

definition hangup_requests :: "Session \<Rightarrow> SipRequest list" where
  "hangup_requests session =
     (if state session = Established then [Bye]
      else if state session = Initial then
        (case sessionClass session of Inviter \<Rightarrow> [Cancel] | Invitation \<Rightarrow> [Reject])
      else [])"

text \<open>\<open>hangupCall\<close> has no \<open>try\<close>; the three requests return promises it does not
  wait for. It clears \<open>currentSession\<close> and then adds its cleanup listener to the
  session it had.\<close>

definition hangupCall :: "World \<Rightarrow> World" where
  "hangupCall w =
     (case currentSession w of
        None \<Rightarrow> w
      | Some sid \<Rightarrow>
          (let session = sessions w sid in
           w\<lparr>currentSession := None,
             sessions := (sessions w)(sid := session
               \<lparr>listeners := listeners session @ [CleanupOnTerminated],
                requests := requests session @ hangup_requests session\<rparr>)\<rparr>))"

subsection \<open>debugAudioTracks\<close>

text \<open>An entry of \<open>trackInfo\<close>: for a sender with a track its index, the track's
  \<open>kind\<close>, \<open>enabled\<close>, \<open>readyState\<close> and \<open>muted\<close> as read before any repair, and
  \<open>fixed\<close>; for a sender without, \<open>{ index, noTrack: true }\<close>.\<close>

datatype TrackInfo =
    TrackInfo nat TrackKind bool ReadyState bool bool
  | NoTrack nat

fun fixed :: "TrackInfo \<Rightarrow> bool" where
  "fixed (TrackInfo i k e r m f) = f"
| "fixed (NoTrack i) = False"

text \<open>The variables the \<open>forEach\<close> over the senders updates, with the track store.\<close>

record DebugLoop =
  trackInfo :: "TrackInfo list"
  fixedTracks :: nat
  hasAudioSender :: bool
  store :: "nat \<Rightarrow> MediaStreamTrack"

text \<open>One round of that \<open>forEach\<close>, for the sender at \<open>index\<close>. The second half of the
  round reads the sender's parameters and may ask the browser to activate an encoding:
  it is inside its own \<open>try\<close>, writes to the console, and changes no track and none of
  the loop's variables, so it has no part here.\<close>

definition debug_sender :: "nat \<times> RTCRtpSender \<Rightarrow> DebugLoop \<Rightarrow> DebugLoop" where
  "debug_sender p l =
     (case track (snd p) of
        None \<Rightarrow> l\<lparr>trackInfo := trackInfo l @ [NoTrack (fst p)]\<rparr>
      | Some t \<Rightarrow>
          (let tk = store l t in
           if kind tk = audio then
             (if \<not> enabled tk then
                l\<lparr>trackInfo := trackInfo l @
                     [TrackInfo (fst p) (kind tk) (enabled tk) (readyState tk) (muted tk) True],
                  fixedTracks := fixedTracks l + 1,
                  hasAudioSender := True,
                  store := (store l)(t := tk\<lparr>enabled := True\<rparr>)\<rparr>
              else
                l\<lparr>trackInfo := trackInfo l @
                     [TrackInfo (fst p) (kind tk) (enabled tk) (readyState tk) (muted tk) False],
                  hasAudioSender := True\<rparr>)
           else
             l\<lparr>trackInfo := trackInfo l @
                  [TrackInfo (fst p) (kind tk) (enabled tk) (readyState tk) (muted tk) False]\<rparr>))"

definition debug_senders :: "RTCRtpSender list \<Rightarrow> (nat \<Rightarrow> MediaStreamTrack) \<Rightarrow> DebugLoop" where
  "debug_senders ss tr =
     fold debug_sender (enumerate 0 ss)
       \<lparr>trackInfo = [], fixedTracks = 0, hasAudioSender = False, store = tr\<rparr>"

text \<open>A number in a template string: its decimal digits.\<close>

definition digit :: "nat \<Rightarrow> char" where
  "digit d = ''0123456789'' ! d"

function decimal :: "nat \<Rightarrow> string" where
  "decimal n = (if n < 10 then [digit n] else decimal (n div 10) @ [digit (n mod 10)])"
  by pat_completeness auto
termination
  by (relation "measure id") auto

text \<open>The report. The three early reports carry \<open>status\<close> and \<open>message\<close> only; the
  other two carry the connection's three states, \<open>tracks\<close>, \<open>localSdp\<close> and
  \<open>remoteSdp\<close>, and the \<open>success\<close> report carries \<open>suggestions\<close> as well.\<close>

record ReportDetails =
  rep_connectionState :: string
  rep_iceConnectionState :: string
  rep_signalingState :: string
  rep_tracks :: "TrackInfo list"
  rep_localSdp :: string
  rep_remoteSdp :: string

record Report =
  status :: string
  message :: string
  details :: "ReportDetails option"
  suggestions :: "string list option"

definition sdp_text :: "string option \<Rightarrow> string" where
  "sdp_text d = (case d of None \<Rightarrow> [] | Some sdp \<Rightarrow> sdp)"

definition report_details :: "RTCPeerConnection \<Rightarrow> TrackInfo list \<Rightarrow> ReportDetails" where
  "report_details pc info =
     \<lparr>rep_connectionState = connectionState pc,
      rep_iceConnectionState = iceConnectionState pc,
      rep_signalingState = signalingState pc,
      rep_tracks = info,
      rep_localSdp = sdp_text (localDescription pc),
      rep_remoteSdp = sdp_text (remoteDescription pc)\<rparr>"

definition server_suggestions :: "string list" where
  "server_suggestions =
     [''Ensure NAT traversal is properly configured on the server'',
      ''Check if the server is configured to allow audio in both directions'',
      ''Verify that the SIP server is not blocking or filtering RTP packets'',
      ''Check firewall settings to ensure RTP ports are open (typically 10000-20000)'']"

text \<open>The filter of \<open>audioSenders\<close>: \<open>sender.track && sender.track.kind === 'audio'\<close>.\<close>

definition audio_sender :: "(nat \<Rightarrow> MediaStreamTrack) \<Rightarrow> RTCRtpSender \<Rightarrow> bool" where
  "audio_sender tr sender = (case track sender of None \<Rightarrow> False | Some t \<Rightarrow> kind (tr t) = audio)"

text \<open>\<open>debugAudioTracks\<close>. Between the loop and the reports the function reads the two
  session descriptions and writes what it finds to the console; of that only
  \<open>localSdp\<close> and \<open>remoteSdp\<close> reach the report. \<open>audioSenders\<close> is filtered after the
  loop, on the tracks as the loop left them.\<close>

definition debugAudioTracks :: "World \<Rightarrow> Report \<times> World" where
  "debugAudioTracks w =
     (case currentSession w of
        None \<Rightarrow>
          (\<lparr>status = ''error'', message = ''No active call'', details = None, suggestions = None\<rparr>, w)
      | Some sid \<Rightarrow>
          (case sessionDescriptionHandler (sessions w sid) of
             None \<Rightarrow>
               (\<lparr>status = ''error'', message = ''No sessionDescriptionHandler found'',
                 details = None, suggestions = None\<rparr>, w)
           | Some sdh \<Rightarrow>
               (case peerConnection sdh of
                  None \<Rightarrow>
                    (\<lparr>status = ''error'', message = ''No peerConnection found'',
                      details = None, suggestions = None\<rparr>, w)
                | Some pc \<Rightarrow>
                    (let l = debug_senders (senders pc) (tracks w);
                         w' = w\<lparr>tracks := store l\<rparr>;
                         audioSenders = filter (audio_sender (store l)) (senders pc)
                     in if length audioSenders = 0 then
                          (\<lparr>status = ''error'', message = ''No audio tracks found'',
                            details = Some (report_details pc (trackInfo l)),
                            suggestions = None\<rparr>, w')
                        else
                          (\<lparr>status = ''success'',
                            message = (if fixedTracks l > 0
                              then ''Fixed '' @ decimal (fixedTracks l) @ '' audio tracks''
                              else ''All audio tracks are properly configured''),
                            details = Some (report_details pc (trackInfo l)),
                            suggestions = Some server_suggestions\<rparr>, w')))))"

subsection \<open>Acquiring media\<close>

text \<open>\<open>getUserMedia\<close> is the browser's: each function below takes it as a parameter,
  from the constraints to either the error the promise rejects with or the tracks of
  the stream it delivers, in \<open>getTracks()\<close> order. A delivered track is a new object:
  it gets the next free address.\<close>

definition alloc_tracks :: "MediaStreamTrack list \<Rightarrow> World \<Rightarrow> nat list \<times> World" where
  "alloc_tracks ts w =
     ([next_track w ..< next_track w + length ts],
      w\<lparr>tracks := (\<lambda>a. if next_track w \<le> a \<and> a < next_track w + length ts
                        then ts ! (a - next_track w) else tracks w a),
        next_track := next_track w + length ts\<rparr>)"

subsection \<open>switchCamera\<close>

text \<open>The index of the first sender with a video track (\<open>find\<close> of \<open>getSenders()\<close>).\<close>

fun find_video_sender :: "(nat \<Rightarrow> MediaStreamTrack) \<Rightarrow> RTCRtpSender list \<Rightarrow> nat \<Rightarrow> (nat \<times> nat) option" where
  "find_video_sender tr [] i = None"
| "find_video_sender tr (sender # ss) i =
     (case track sender of
        None \<Rightarrow> find_video_sender tr ss (i + 1)
      | Some t \<Rightarrow> if kind (tr t) = video then Some (i, t) else find_video_sender tr ss (i + 1))"

text \<open>\<open>replaceTrack\<close> on the sender at index \<open>i\<close> of the current session's connection.\<close>

definition set_sender_track :: "nat \<Rightarrow> nat \<Rightarrow> nat option \<Rightarrow> World \<Rightarrow> World" where
  "set_sender_track sid i new w =
     (let session = sessions w sid in
      w\<lparr>sessions := (sessions w)(sid := session
          \<lparr>sessionDescriptionHandler :=
             map_option (\<lambda>sdh. sdh\<lparr>peerConnection :=
               map_option (\<lambda>pc. pc\<lparr>senders := (senders pc)[i := (senders pc ! i)\<lparr>track := new\<rparr>]\<rparr>)
                 (peerConnection sdh)\<rparr>)
               (sessionDescriptionHandler session)\<rparr>)\<rparr>)"

text \<open>\<open>switchCamera\<close>, with the outcome of \<open>replaceTrack\<close> (\<open>None\<close>: it resolves) as a
  second parameter. Without a peer connection \<open>pc.getSenders()\<close> is a TypeError that the
  outer \<open>catch\<close> turns into \<open>false\<close>. \<open>newStream.getVideoTracks()[0]\<close> is the first
  video track of the delivered stream, \<open>undefined\<close> when it has none, which
  \<open>replaceTrack\<close> takes as \<open>null\<close>.\<close>

definition switchCamera ::
  "(MediaStreamConstraints \<Rightarrow> JsError + MediaStreamTrack list) \<Rightarrow> JsError option \<Rightarrow> World \<Rightarrow> bool \<times> World" where
  "switchCamera getUserMedia replaceTrack w =
     (case currentSession w of
        None \<Rightarrow> (False, w)
      | Some sid \<Rightarrow>
          (case sessionDescriptionHandler (sessions w sid) of
             None \<Rightarrow> (False, w)
           | Some sdh \<Rightarrow>
               (case peerConnection sdh of
                  None \<Rightarrow> (False, w)
                | Some pc \<Rightarrow>
                    (case find_video_sender (tracks w) (senders pc) 0 of
                       None \<Rightarrow> (False, w)
                     | Some (i, currentTrack) \<Rightarrow>
                         (let currentFacingMode = facingMode (tracks w currentTrack);
                              newFacingMode = (if currentFacingMode = Some ''user''
                                               then ''environment'' else ''user'');
                              c = \<lparr>c_audio = False, c_video = Facing newFacingMode\<rparr>;
                              w1 = w\<lparr>effects := effects w @ [GetUserMedia c]\<rparr>
                          in case getUserMedia c of
                               Inl error \<Rightarrow> (False, w1)
                             | Inr ts \<Rightarrow>
                                 (let (newStream, w2) = alloc_tracks ts w1;
                                      newTrack = find (\<lambda>a. kind (tracks w2 a) = video) newStream;
                                      w3 = w2\<lparr>effects := effects w2 @ [ReplaceTrack i newTrack]\<rparr>
                                  in case replaceTrack of
                                       Some error \<Rightarrow> (False, w3)
                                     | None \<Rightarrow>
                                         (let w4 = set_sender_track sid i newTrack w3;
                                              w5 = w4\<lparr>tracks := (tracks w4)(currentTrack :=
                                                         (tracks w4 currentTrack)\<lparr>readyState := ended\<rparr>),
                                                      effects := effects w4 @ [StopTrack currentTrack]\<rparr>
                                          in (True, w5))))))))"

subsection \<open>Strings\<close>

text \<open>\<open>s.startsWith(p)\<close>, and \<open>s.split(c)\<close> for a separator of one character: the
  pieces between the separators, at least one piece.\<close>

definition startsWith :: "string \<Rightarrow> string \<Rightarrow> bool" where
  "startsWith s p = (take (length p) s = p)"

fun split :: "char \<Rightarrow> string \<Rightarrow> string list" where
  "split c [] = [[]]"
| "split c (x # xs) =
     (if x = c then [] # split c xs
      else (case split c xs of [] \<Rightarrow> [[x]] | piece # pieces \<Rightarrow> (x # piece) # pieces))"

text \<open>\<open>xs[i]\<close> on an array: \<open>undefined\<close> out of range.\<close>

definition at_index :: "'a list \<Rightarrow> nat \<Rightarrow> 'a option" where
  "at_index xs i = (if i < length xs then Some (xs ! i) else None)"

text \<open>The target as \<open>makeCall\<close> formats it. The scheme is added when the target starts
  with neither \<open>sip:\<close> nor \<open>sips:\<close>. When the result has no \<open>@\<close>, the domain is read
  off the text of the user agent's URI: \<open>registeredURI.split('@')[1]?.split(';')[0]\<close>,
  and \<open>jsmwebrtc.my.id\<close> when that is \<open>undefined\<close> or empty. \<open>ua\<close> is read only then;
  were it \<open>undefined\<close> the read is a TypeError.\<close>

definition default_domain :: string where
  "default_domain = ''jsmwebrtc.my.id''"

definition registered_domain :: "string \<Rightarrow> string" where
  "registered_domain registeredURI =
     (case at_index (split CHR ''@'' registeredURI) 1 of
        None \<Rightarrow> default_domain
      | Some rest \<Rightarrow>
          (case at_index (split CHR '';'' rest) 0 of
             None \<Rightarrow> default_domain
           | Some d \<Rightarrow> if d = [] then default_domain else d))"

definition format_target :: "UserAgent option \<Rightarrow> string \<Rightarrow> JsError + string" where
  "format_target agent target =
     (let formattedTarget =
            (if \<not> startsWith target ''sip:'' \<and> \<not> startsWith target ''sips:''
             then ''sip:'' @ target else target)
      in if CHR ''@'' \<notin> set formattedTarget then
           (case agent of
              None \<Rightarrow> Inl (Error ''TypeError: ua is undefined'')
            | Some u \<Rightarrow>
                (let registeredURI = (case configuration_uri u of None \<Rightarrow> [] | Some text \<Rightarrow> text)
                 in Inr (formattedTarget @ ''@'' @ registered_domain registeredURI)))
         else Inr formattedTarget)"

subsection \<open>makeCall and acceptCall\<close>

text \<open>Both \<open>makeCall\<close> and \<open>acceptCall\<close> begin their \<open>catch\<close> with the same two tests,
  "to provide a more helpful message": for a \<open>DOMException\<close> named \<open>NotAllowedError\<close>
  or \<open>PermissionDeniedError\<close>, and for one named \<open>NotFoundError\<close>, a new error is
  thrown at once. \<open>user_message\<close> is that new error, \<open>None\<close> when neither test holds.\<close>

definition access_denied :: JsError where
  "access_denied =
     Error ''Microphone or camera access denied. Please allow access in your browser settings.''"

definition not_found :: JsError where
  "not_found = Error ''No microphone or camera found. Please check your device connections.''"

definition user_message :: "JsError \<Rightarrow> JsError option" where
  "user_message error =
     (case error of
        DOMException name msg \<Rightarrow>
          if name = ''NotAllowedError'' \<or> name = ''PermissionDeniedError'' then Some access_denied
          else if name = ''NotFoundError'' then Some not_found
          else None
      | Error msg \<Rightarrow> None)"

text \<open>What the \<open>catch\<close> of \<open>makeCall\<close> throws for the error it caught.\<close>

definition rethrow :: "JsError \<Rightarrow> JsError" where
  "rethrow error = (case user_message error of Some shown \<Rightarrow> shown | None \<Rightarrow> error)"

definition invalid_target :: "string \<Rightarrow> JsError" where
  "invalid_target formattedTarget =
     Error (''Invalid target URI: '' @ formattedTarget @
            ''. Please use format: username@domain or sip:username@domain'')"

text \<open>\<open>makeCall\<close>. Parameters before the source's own: \<open>getUserMedia\<close>; \<open>makeURI\<close>,
  whether the library's \<open>UserAgent.makeURI\<close> yields a URI for a text; and the outcome of
  \<open>inviter.invite()\<close> (\<open>None\<close>: it resolves). The result is the error thrown or the
  address of the inviter returned, with the state left behind in either case. The
  whole body is in one \<open>try\<close>, so every error passes through \<open>rethrow\<close>. The microphone
  level check after the acquisition only writes to the console. Constructing an
  \<open>Inviter\<close> on an \<open>undefined\<close> user agent is a TypeError.\<close>

definition makeCall ::
  "(MediaStreamConstraints \<Rightarrow> JsError + MediaStreamTrack list) \<Rightarrow> (string \<Rightarrow> bool) \<Rightarrow> JsError option
     \<Rightarrow> string \<Rightarrow> bool \<Rightarrow> World \<Rightarrow> (JsError + nat) \<times> World" where
  "makeCall getUserMedia makeURI invite target withVideo w =
     (let c = \<lparr>c_audio = True, c_video = (if withVideo then AnyVideo else NoVideo)\<rparr>;
          w1 = w\<lparr>effects := effects w @ [GetUserMedia c]\<rparr>
      in case getUserMedia c of
           Inl error \<Rightarrow> (Inl (rethrow error), w1)
         | Inr ts \<Rightarrow>
             (let (stream, w2) = alloc_tracks ts w1
              in case format_target (ua w2) target of
                   Inl error \<Rightarrow> (Inl (rethrow error), w2)
                 | Inr formattedTarget \<Rightarrow>
                     if \<not> makeURI formattedTarget then
                       (Inl (rethrow (invalid_target formattedTarget)), w2)
                     else
                       (case ua w2 of
                          None \<Rightarrow> (Inl (rethrow (Error ''TypeError: ua is undefined'')), w2)
                        | Some agent \<Rightarrow>
                            (let inviter = next_session w2;
                                 w3 = w2\<lparr>currentSession := Some inviter,
                                         sessions := (sessions w2)(inviter :=
                                           \<lparr>sessionClass = Inviter, state = Initial,
                                            sessionDescriptionHandler = None,
                                            targetURI = Some (URI formattedTarget),
                                            constraints_video = Some withVideo,
                                            listeners = [SdpIntercept,
                                              AddTracksOnEstablishing stream,
                                              CheckAudioOnEstablished withVideo],
                                            requests = [Invite]\<rparr>),
                                         next_session := inviter + 1\<rparr>
                             in case invite of
                                  Some error \<Rightarrow> (Inl (rethrow error), w3)
                                | None \<Rightarrow> (Inr inviter, w3)))))"

text \<open>The \<open>catch\<close> of \<open>acceptCall\<close>: the two new errors are thrown before the
  invitation is touched; only past them is \<open>invitation.reject()\<close> called ("Reject the call
  if we couldn't accept it") and the error that was caught thrown again.\<close>

definition accept_failed :: "JsError \<Rightarrow> nat \<Rightarrow> World \<Rightarrow> (JsError + unit) \<times> World" where
  "accept_failed error invitation w =
     (case user_message error of
        Some shown \<Rightarrow> (Inl shown, w)
      | None \<Rightarrow>
          (Inl error, w\<lparr>sessions := (sessions w)(invitation := (sessions w invitation)
                  \<lparr>requests := requests (sessions w invitation) @ [Reject]\<rparr>)\<rparr>))"

text \<open>\<open>acceptCall\<close>. Parameters before the source's own: \<open>getUserMedia\<close>, and the
  outcome of \<open>invitation.accept(options)\<close> (\<open>None\<close>: it resolves). \<open>invitation\<close> is the
  address of the invitation.\<close>

definition acceptCall ::
  "(MediaStreamConstraints \<Rightarrow> JsError + MediaStreamTrack list) \<Rightarrow> JsError option
     \<Rightarrow> nat \<Rightarrow> bool \<Rightarrow> World \<Rightarrow> (JsError + unit) \<times> World" where
  "acceptCall getUserMedia accept invitation withVideo w =
     (let c = \<lparr>c_audio = True, c_video = (if withVideo then AnyVideo else NoVideo)\<rparr>;
          w1 = w\<lparr>effects := effects w @ [GetUserMedia c]\<rparr>
      in case getUserMedia c of
           Inl error \<Rightarrow> accept_failed error invitation w1
         | Inr ts \<Rightarrow>
             (let (stream, w2) = alloc_tracks ts w1;
                  session = sessions w2 invitation;
                  w3 = w2\<lparr>sessions := (sessions w2)(invitation := session
                          \<lparr>listeners := listeners session @ [CheckAudioOnEstablished withVideo],
                           requests := requests session @ [Accept withVideo]\<rparr>)\<rparr>
              in case accept of
                   Some error \<Rightarrow> accept_failed error invitation w3
                 | None \<Rightarrow>
                     (Inr (),
                      w3\<lparr>currentSession := Some invitation,
                         sessions := (sessions w3)(invitation := (sessions w3 invitation)
                           \<lparr>listeners := listeners (sessions w3 invitation) @
                              [AddTracksOnEstablishing stream]\<rparr>)\<rparr>)))"

subsection \<open>initSIP\<close>

text \<open>The promise \<open>initSIP\<close> returns is settled by callbacks that run after it has
  returned. The state they share: the promise, the two local variables
  \<open>isPromiseSettled\<close> and \<open>registrationTimeout\<close>, whether the registerer exists with the
  module's listener on it, and the errors handed to \<open>onRegistrationFailed\<close>. Time is the
  browser's: \<open>clock\<close> is the time in milliseconds since \<open>initSIP\<close> was called, and
  \<open>registrationTimeout\<close> holds, for the timer that is set and not cleared, the time at
  which it is due (\<open>None\<close> for \<open>null\<close>).\<close>

datatype PromiseState = Pending | Resolved | Rejected JsError

datatype RegistererState = RegistererInitial | Registered | Unregistered | RegistererTerminated

record Registration =
  promise :: PromiseState
  isPromiseSettled :: bool
  registrationTimeout :: "nat option"
  listening :: bool
  registrationFailed :: "JsError list"
  clock :: nat

definition safeResolve :: "Registration \<Rightarrow> Registration" where
  "safeResolve r =
     (if \<not> isPromiseSettled r then
        r\<lparr>isPromiseSettled := True, registrationTimeout := None,
          promise := (if promise r = Pending then Resolved else promise r)\<rparr>
      else r)"

definition safeReject :: "JsError \<Rightarrow> Registration \<Rightarrow> Registration" where
  "safeReject error r =
     (if \<not> isPromiseSettled r then
        r\<lparr>isPromiseSettled := True, registrationTimeout := None,
          registrationFailed := registrationFailed r @ [error],
          promise := (if promise r = Pending then Rejected error else promise r)\<rparr>
      else r)"

definition registration_failed :: JsError where
  "registration_failed = Error ''Registration failed or expired.''"

definition registration_timed_out :: JsError where
  "registration_timed_out = Error ''Registration timed out after 10 seconds.''"

text \<open>The synchronous part of \<open>initSIP\<close>: constructing the user agent throws
  (\<open>Some error\<close>) and the \<open>catch\<close> rejects, or \<open>ua.start()\<close> is called and the promise is
  left pending.\<close>

definition initSIP :: "JsError option \<Rightarrow> Registration" where
  "initSIP construct =
     (let r = \<lparr>promise = Pending, isPromiseSettled = False, registrationTimeout = None,
               listening = False, registrationFailed = [], clock = 0\<rparr>
      in case construct of Some error \<Rightarrow> safeReject error r | None \<Rightarrow> r)"

text \<open>What happens afterwards: \<open>ua.start()\<close> resolves or rejects, the registerer changes
  state, time passes (by so many milliseconds).\<close>

datatype RegistrationEvent =
    StartResolved
  | StartRejected JsError
  | StateChange RegistererState
  | Elapse nat

text \<open>The callback of the timer.\<close>

definition on_timeout :: "Registration \<Rightarrow> Registration" where
  "on_timeout r = (if \<not> isPromiseSettled r then safeReject registration_timed_out r else r)"

text \<open>The callbacks. When \<open>ua.start()\<close> resolves, the listener is added and the timer is
  set with \<open>setTimeout(..., 10000)\<close>: it is due 10000 ms from then. The listener resolves on
  \<open>Registered\<close>, rejects on \<open>Unregistered\<close> when the promise is not settled, and only logs
  otherwise; it exists only once the registerer does. When time passes, the timer's
  callback runs as soon as the timer is due; a timer that is not set, or was cleared,
  never runs.\<close>

fun registration_step :: "RegistrationEvent \<Rightarrow> Registration \<Rightarrow> Registration" where
  "registration_step StartResolved r =
     r\<lparr>listening := True, registrationTimeout := Some (clock r + 10000)\<rparr>"
| "registration_step (StartRejected error) r = safeReject error r"
| "registration_step (StateChange s) r =
     (if listening r then
        (case s of
           Registered \<Rightarrow> safeResolve r
         | Unregistered \<Rightarrow> if \<not> isPromiseSettled r then safeReject registration_failed r else r
         | RegistererInitial \<Rightarrow> r
         | RegistererTerminated \<Rightarrow> r)
      else r)"
| "registration_step (Elapse d) r =
     (let r' = r\<lparr>clock := clock r + d\<rparr>
      in case registrationTimeout r' of
           None \<Rightarrow> r'
         | Some due \<Rightarrow> if due \<le> clock r' then on_timeout r' else r')"

definition registration_run :: "RegistrationEvent list \<Rightarrow> Registration \<Rightarrow> Registration" where
  "registration_run evs r = fold registration_step evs r"

subsection \<open>Auxiliary predicates and example states\<close>

text \<open>A sender the loop of \<open>debugAudioTracks\<close> leaves alone: it has no track, or its track
  is not an audio track, or it is enabled already.\<close>

definition no_fix :: "(nat \<Rightarrow> MediaStreamTrack) \<Rightarrow> RTCRtpSender \<Rightarrow> bool" where
  "no_fix tr x = (case track x of None \<Rightarrow> True | Some a \<Rightarrow> kind (tr a) \<noteq> audio \<or> enabled (tr a))"

definition audio_track :: MediaStreamTrack where
  "audio_track = \<lparr>kind = audio, enabled = True, readyState = live, muted = False, facingMode = None\<rparr>"

definition video_track :: MediaStreamTrack where
  "video_track = \<lparr>kind = video, enabled = True, readyState = live, muted = False, facingMode = Some ''user''\<rparr>"

definition example_connection :: "RTCRtpSender list \<Rightarrow> RTCPeerConnection" where
  "example_connection ss =
     \<lparr>senders = ss, connectionState = ''connected'', iceConnectionState = ''connected'',
      signalingState = ''stable'', localDescription = None, remoteDescription = None\<rparr>"

definition example_session :: "SessionClass \<Rightarrow> SessionState \<Rightarrow> RTCRtpSender list option \<Rightarrow> Session" where
  "example_session c st ss =
     \<lparr>sessionClass = c, state = st,
      sessionDescriptionHandler =
        map_option (\<lambda>xs. \<lparr>peerConnection = Some (example_connection xs)\<rparr>) ss,
      targetURI = None, constraints_video = None, listeners = [], requests = []\<rparr>"

definition example_world :: "nat option \<Rightarrow> Session \<Rightarrow> MediaStreamTrack \<Rightarrow> World" where
  "example_world cur session first_track =
     \<lparr>ua = Some \<lparr>configuration_uri = Some ''sip:alice@example.com''\<rparr>,
      currentSession = cur, isOnHold = False,
      sessions = (\<lambda>_. session),
      tracks = (\<lambda>a. if a = 0 then first_track else video_track),
      next_session = 1, next_track = 2, effects = []\<rparr>"

text \<open>An established outbound call with an audio sender (track 0) and a video sender (track 1).\<close>

definition call_world :: World where
  "call_world = example_world (Some 0)
     (example_session Inviter Established (Some [\<lparr>track = Some 0\<rparr>, \<lparr>track = Some 1\<rparr>])) audio_track"

definition disabled_audio_world :: World where
  "disabled_audio_world = example_world (Some 0)
     (example_session Inviter Established (Some [\<lparr>track = Some 1\<rparr>, \<lparr>track = Some 0\<rparr>]))
     (audio_track\<lparr>enabled := False\<rparr>)"

definition video_only_world :: World where
  "video_only_world = example_world (Some 0)
     (example_session Inviter Established (Some [\<lparr>track = None\<rparr>, \<lparr>track = Some 1\<rparr>])) audio_track"

definition ringing_world :: World where
  "ringing_world = example_world (Some 0) (example_session Invitation Initial None) audio_track"

definition idle_world :: World where
  "idle_world = example_world None (example_session Invitation Terminated None) audio_track"

text \<open>Two browsers: one that delivers the given tracks whatever is asked, one whose
  \<open>getUserMedia\<close> rejects with the given error.\<close>

definition grant :: "MediaStreamTrack list \<Rightarrow> MediaStreamConstraints \<Rightarrow> JsError + MediaStreamTrack list" where
  "grant ts c = Inr ts"

definition deny :: "JsError \<Rightarrow> MediaStreamConstraints \<Rightarrow> JsError + MediaStreamTrack list" where
  "deny error c = Inl error"

text \<open>No session, and a user agent whose URI has no user part.\<close>

definition bare_host_world :: World where
  "bare_host_world = idle_world\<lparr>ua := Some \<lparr>configuration_uri = Some ''sip:example.com''\<rparr>\<rparr>"

text \<open>What \<open>switchCamera\<close> asks of \<open>getUserMedia\<close> for a current video track: video only,
  facing \<open>environment\<close> when the track reports \<open>user\<close>, and \<open>user\<close> otherwise.\<close>

definition facing_request :: "MediaStreamTrack \<Rightarrow> MediaStreamConstraints" where
  "facing_request tk = \<lparr>c_audio = False,
     c_video = Facing (if facingMode tk = Some ''user'' then ''environment'' else ''user'')\<rparr>"

text \<open>The track held by the sender at index \<open>i\<close> of a session's connection.\<close>

definition video_sender_track :: "World \<Rightarrow> nat \<Rightarrow> nat \<Rightarrow> nat option" where
  "video_sender_track w sid i =
     (case sessionDescriptionHandler (sessions w sid) of
        None \<Rightarrow> None
      | Some sdh \<Rightarrow> (case peerConnection sdh of None \<Rightarrow> None | Some pc \<Rightarrow> track (senders pc ! i)))"

text \<open>A camera track as the browser delivers it for the back camera.\<close>

definition environment_camera :: MediaStreamTrack where
  "environment_camera = video_track\<lparr>facingMode := Some ''environment''\<rparr>"

text \<open>Events that settle nothing by themselves: time passing, and a registerer state
  other than \<open>Registered\<close> and \<open>Unregistered\<close>. \<open>elapsed\<close> is the time that passes in a
  list of events.\<close>

fun quiet :: "RegistrationEvent \<Rightarrow> bool" where
  "quiet (Elapse d) = True"
| "quiet (StateChange s) = (s \<noteq> Registered \<and> s \<noteq> Unregistered)"
| "quiet StartResolved = False"
| "quiet (StartRejected error) = False"

fun elapsed :: "RegistrationEvent list \<Rightarrow> nat" where
  "elapsed [] = 0"
| "elapsed (Elapse d # evs) = d + elapsed evs"
| "elapsed (e # evs) = elapsed evs"

fun start_rejection :: "RegistrationEvent \<Rightarrow> bool" where
  "start_rejection (StartRejected error) = True"
| "start_rejection e = False"

text \<open>What holds of the registration state after the events \<open>evs\<close>: the flag mirrors the
  promise; the listener exists once \<open>ua.start()\<close> has resolved, and no timer was set before;
  while the promise is pending after that, the timer is set, not yet due, and due within
  10000 ms; a resolved promise has seen \<open>Registered\<close>; the promise is still pending when
  nothing but time and state changes came before \<open>ua.start()\<close> settled; and a constructor
  that threw has rejected it for good.\<close>

definition registration_inv :: "JsError option \<Rightarrow> RegistrationEvent list \<Rightarrow> Registration \<Rightarrow> bool" where
  "registration_inv construct evs r =
     ((isPromiseSettled r = (promise r \<noteq> Pending)) \<and>
      (listening r = (StartResolved \<in> set evs)) \<and>
      (StartResolved \<notin> set evs \<longrightarrow> registrationTimeout r = None) \<and>
      (promise r = Pending \<and> StartResolved \<in> set evs \<longrightarrow>
         (\<exists>due. registrationTimeout r = Some due \<and> clock r < due \<and> due \<le> clock r + 10000)) \<and>
      (promise r = Resolved \<longrightarrow>
         StartResolved \<in> set evs \<and> StateChange Registered \<in> set evs) \<and>
      (construct = None \<and> StartResolved \<notin> set evs \<and> (\<forall>e\<in>set evs. \<not> start_rejection e) \<longrightarrow>
         promise r = Pending) \<and>
      (\<forall>error. construct = Some error \<longrightarrow> promise r = Rejected error))"

section \<open>Properties\<close>

declare decimal.simps [simp del]

lemmas example_defs = example_world_def example_session_def example_connection_def
  audio_track_def video_track_def

subsection \<open>muteCall and holdCall: the last call decides\<close>

lemma kind_fold_mute: "kind (fold (mute_sender m) ss tr t) = kind (tr t)"
  by (induction ss arbitrary: tr) (auto simp: mute_sender_def split: option.splits)

lemma kind_fold_hold: "kind (fold (hold_sender h) ss tr t) = kind (tr t)"
  by (induction ss arbitrary: tr) (auto simp: hold_sender_def split: option.splits)

lemma enabled_fold_mute_gen:
  "s \<in> set ss \<or> enabled (tr t) = (\<not> m) \<Longrightarrow> track s = Some t \<Longrightarrow> kind (tr t) = audio \<Longrightarrow>
   enabled (fold (mute_sender m) ss tr t) = (\<not> m)"
proof (induction ss arbitrary: tr)
  case Nil
  then show ?case by simp
next
  case (Cons a ss)
  let ?tr = "mute_sender m a tr"
  have k: "kind (?tr t) = audio"
    using Cons.prems(3) by (simp add: mute_sender_def split: option.splits)
  have "s \<in> set ss \<or> enabled (?tr t) = (\<not> m)"
    using Cons.prems by (auto simp: mute_sender_def split: option.splits)
  then have "enabled (fold (mute_sender m) ss ?tr t) = (\<not> m)"
    using Cons.IH [of ?tr] Cons.prems(2) k by blast
  then show ?case by simp
qed

lemma enabled_fold_mute:
  "s \<in> set ss \<Longrightarrow> track s = Some t \<Longrightarrow> kind (tr t) = audio \<Longrightarrow>
   enabled (fold (mute_sender m) ss tr t) = (\<not> m)"
  using enabled_fold_mute_gen [of s ss tr t m] by blast

lemma enabled_fold_hold_gen:
  "s \<in> set ss \<or> enabled (tr t) = (\<not> h) \<Longrightarrow> track s = Some t \<Longrightarrow>
   enabled (fold (hold_sender h) ss tr t) = (\<not> h)"
proof (induction ss arbitrary: tr)
  case Nil
  then show ?case by simp
next
  case (Cons a ss)
  let ?tr = "hold_sender h a tr"
  have "s \<in> set ss \<or> enabled (?tr t) = (\<not> h)"
    using Cons.prems by (auto simp: hold_sender_def split: option.splits)
  then have "enabled (fold (hold_sender h) ss ?tr t) = (\<not> h)"
    using Cons.IH [of ?tr] Cons.prems(2) by blast
  then show ?case by simp
qed

lemma enabled_fold_hold:
  "s \<in> set ss \<Longrightarrow> track s = Some t \<Longrightarrow>
   enabled (fold (hold_sender h) ss tr t) = (\<not> h)"
  using enabled_fold_hold_gen [of s ss tr t h] by blast

lemma control_call_frame:
  "currentSession (control_call c w) = currentSession w"
  "sessions (control_call c w) = sessions w"
  "kind (tracks (control_call c w) t) = kind (tracks w t)"
  by (cases c; simp add: muteCall_def holdCall_def kind_fold_mute kind_fold_hold split: option.splits)+

lemma control_calls_frame:
  "currentSession (control_calls cs w) = currentSession w \<and>
   sessions (control_calls cs w) = sessions w \<and>
   kind (tracks (control_calls cs w) t) = kind (tracks w t)"
  unfolding control_calls_def
  by (induction cs arbitrary: w) (simp_all add: control_call_frame)

lemma control_call_enabled:
  assumes "currentSession w = Some sid"
    and "sessionDescriptionHandler (sessions w sid) = Some sdh"
    and "peerConnection sdh = Some pc"
    and "s \<in> set (senders pc)" and "track s = Some t" and "kind (tracks w t) = audio"
  shows "enabled (tracks (control_call c w) t) = (\<not> call_arg c)"
  using assms
  by (cases c) (simp_all add: muteCall_def holdCall_def enabled_fold_mute enabled_fold_hold)

lemma spec_flags_last:
  "spec_muted (cs @ [MuteCall b]) = b" "spec_onHold (cs @ [HoldCall b]) = b"
  "spec_muted (cs @ [HoldCall b]) = spec_muted cs" "spec_onHold (cs @ [MuteCall b]) = spec_onHold cs"
  by (simp_all add: spec_muted_def spec_onHold_def)

text \<open>
  C1 (as amended). After any non-empty sequence of \<open>muteCall\<close> and \<open>holdCall\<close> calls on an
  active session whose handler has a peer connection, the track of every audio sender has
  \<open>enabled\<close> equal to the negation of the argument of the last call of the sequence,
  whichever of the two functions it was. That value is \<open>!muted && !onHold\<close> exactly when
  the last call's argument is \<open>true\<close> or neither flag is set.
\<close>

theorem C1_last_call_wins:
  assumes "currentSession w = Some sid"
    and "sessionDescriptionHandler (sessions w sid) = Some sdh"
    and "peerConnection sdh = Some pc"
    and "s \<in> set (senders pc)" and "track s = Some t" and "kind (tracks w t) = audio"
    and "cs \<noteq> []"
  shows "enabled (tracks (control_calls cs w) t) = (\<not> call_arg (last cs)) \<and>
         ((enabled (tracks (control_calls cs w) t) = (\<not> spec_muted cs \<and> \<not> spec_onHold cs)) =
          (call_arg (last cs) \<or> (\<not> spec_muted cs \<and> \<not> spec_onHold cs)))"
proof -
  obtain cs' c where cs: "cs = cs' @ [c]"
    using assms(7) by (metis append_butlast_last_id)
  let ?w = "control_calls cs' w"
  have split: "control_calls cs w = control_call c ?w"
    by (simp add: cs control_calls_def)
  have f: "currentSession ?w = Some sid" "sessionDescriptionHandler (sessions ?w sid) = Some sdh"
    "kind (tracks ?w t) = audio"
    using control_calls_frame [of cs' w t] assms by simp_all
  have e: "enabled (tracks (control_calls cs w) t) = (\<not> call_arg (last cs))"
    using control_call_enabled [OF f(1) f(2) assms(3) assms(4) assms(5) f(3)] split cs by simp
  have "call_arg (last cs) \<longrightarrow> spec_muted cs \<or> spec_onHold cs"
    unfolding cs by (cases c) (simp_all add: spec_flags_last)
  then show ?thesis using e by auto
qed

theorem C1_last_call_wins_witness:
  "enabled (tracks (control_calls [HoldCall True, MuteCall True, HoldCall False] call_world) 0) \<and>
   spec_muted [HoldCall True, MuteCall True, HoldCall False]"
proof -
  let ?ss = "[\<lparr>track = Some 0\<rparr>, \<lparr>track = Some 1\<rparr>]"
  show ?thesis
    using C1_last_call_wins [of call_world 0 "\<lparr>peerConnection = Some (example_connection ?ss)\<rparr>"
        "example_connection ?ss" "\<lparr>track = Some 0\<rparr>" 0 "[HoldCall True, MuteCall True, HoldCall False]"]
    by (simp add: call_world_def example_defs spec_muted_def)
qed

text \<open>The claim as stated fails: on hold, a call \<open>muteCall(false)\<close> enables the audio
  track of a live audio sender, while \<open>!muted && !onHold\<close> is \<open>false\<close>.\<close>

theorem C1_counterexample:
  "currentSession call_world = Some 0 \<and>
   kind (tracks call_world 0) = audio \<and> readyState (tracks call_world 0) = live \<and>
   enabled (tracks (control_calls [HoldCall True, MuteCall False] call_world) 0) \<noteq>
     (\<not> spec_muted [HoldCall True, MuteCall False] \<and> \<not> spec_onHold [HoldCall True, MuteCall False])"
  by (simp add: control_calls_def call_world_def example_defs muteCall_def holdCall_def
      mute_sender_def hold_sender_def spec_muted_def spec_onHold_def)

subsection \<open>debugAudioTracks\<close>

lemma debug_sender_no_fix:
  "no_fix (store l) x \<Longrightarrow>
   store (debug_sender (i, x) l) = store l \<and>
   fixedTracks (debug_sender (i, x) l) = fixedTracks l \<and>
   filter fixed (trackInfo (debug_sender (i, x) l)) = filter fixed (trackInfo l)"
  by (auto simp: debug_sender_def no_fix_def Let_def split: option.splits)

lemma debug_fold_no_fix:
  "\<forall>x\<in>set xs. no_fix (store l) x \<Longrightarrow>
   store (fold debug_sender (enumerate n xs) l) = store l \<and>
   fixedTracks (fold debug_sender (enumerate n xs) l) = fixedTracks l \<and>
   filter fixed (trackInfo (fold debug_sender (enumerate n xs) l)) = filter fixed (trackInfo l)"
proof (induction xs arbitrary: n l)
  case Nil
  then show ?case by simp
next
  case (Cons x xs)
  let ?l = "debug_sender (n, x) l"
  have x: "no_fix (store l) x" using Cons.prems by simp
  note s = debug_sender_no_fix [OF x, of n]
  have "\<forall>y\<in>set xs. no_fix (store ?l) y" using Cons.prems s by simp
  from Cons.IH [OF this, of "Suc n"] s show ?case by simp
qed

lemma debug_senders_no_fix:
  "\<forall>x\<in>set ss. no_fix tr x \<Longrightarrow>
   store (debug_senders ss tr) = tr \<and> fixedTracks (debug_senders ss tr) = 0 \<and>
   filter fixed (trackInfo (debug_senders ss tr)) = []"
  unfolding debug_senders_def
  using debug_fold_no_fix [of ss "\<lparr>trackInfo = [], fixedTracks = 0, hasAudioSender = False, store = tr\<rparr>" 0]
  by simp

lemma not_audio_no_fix: "\<not> audio_sender tr x \<Longrightarrow> no_fix tr x"
  by (simp add: audio_sender_def no_fix_def split: option.splits)

lemma audio_sender_enabled_upd:
  "audio_sender (tr(t := (tr t)\<lparr>enabled := b\<rparr>)) x = audio_sender tr x"
  by (simp add: audio_sender_def split: option.splits)

lemma debug_senders_one_fix:
  assumes pre: "\<forall>x\<in>set pre. \<not> audio_sender tr x" and post: "\<forall>x\<in>set post. \<not> audio_sender tr x"
    and s: "track s = Some t" "kind (tr t) = audio" "\<not> enabled (tr t)"
  shows "store (debug_senders (pre @ s # post) tr) = tr(t := (tr t)\<lparr>enabled := True\<rparr>) \<and>
         fixedTracks (debug_senders (pre @ s # post) tr) = 1 \<and>
         filter fixed (trackInfo (debug_senders (pre @ s # post) tr)) =
           [TrackInfo (length pre) audio False (readyState (tr t)) (muted (tr t)) True]"
proof -
  let ?l0 = "\<lparr>trackInfo = [], fixedTracks = 0, hasAudioSender = False, store = tr\<rparr>"
  let ?l1 = "fold debug_sender (enumerate 0 pre) ?l0"
  let ?l2 = "debug_sender (length pre, s) ?l1"
  let ?l3 = "fold debug_sender (enumerate (Suc (length pre)) post) ?l2"
  have e: "debug_senders (pre @ s # post) tr = ?l3"
    by (simp add: debug_senders_def enumerate_append_eq)
  have "\<forall>x\<in>set pre. no_fix (store ?l0) x" using pre not_audio_no_fix by simp
  note l1 = debug_fold_no_fix [OF this, of 0]
  have l2: "store ?l2 = tr(t := (tr t)\<lparr>enabled := True\<rparr>)" "fixedTracks ?l2 = 1"
    "filter fixed (trackInfo ?l2) = [TrackInfo (length pre) audio False (readyState (tr t)) (muted (tr t)) True]"
    using l1 s by (simp_all add: debug_sender_def Let_def)
  have "\<forall>x\<in>set post. no_fix (store ?l2) x"
    using post s(2) by (auto simp: l2(1) audio_sender_def no_fix_def split: option.splits)
  note l3 = debug_fold_no_fix [OF this, of "Suc (length pre)"]
  show ?thesis unfolding e using l3 l2 by simp
qed

lemma debugAudioTracks_connected:
  assumes "currentSession w = Some sid"
    and "sessionDescriptionHandler (sessions w sid) = Some sdh"
    and "peerConnection sdh = Some pc"
    and "filter (audio_sender (store (debug_senders (senders pc) (tracks w)))) (senders pc) \<noteq> []"
  shows "debugAudioTracks w =
     (\<lparr>status = ''success'',
       message = (if fixedTracks (debug_senders (senders pc) (tracks w)) > 0
          then ''Fixed '' @ decimal (fixedTracks (debug_senders (senders pc) (tracks w))) @ '' audio tracks''
          else ''All audio tracks are properly configured''),
       details = Some (report_details pc (trackInfo (debug_senders (senders pc) (tracks w)))),
       suggestions = Some server_suggestions\<rparr>,
      w\<lparr>tracks := store (debug_senders (senders pc) (tracks w))\<rparr>)"
  using assms by (simp add: debugAudioTracks_def Let_def)

lemma decimal_Suc_0: "decimal (Suc 0) = ''1''"
  by (simp add: decimal.simps digit_def)

text \<open>
  C5. When the active session's connection has exactly one audio sender (the senders
  before and after it are not audio senders) and its track is disabled,
  \<open>debugAudioTracks\<close> enables the track and reports one fixed track: the message is
  \<open>Fixed 1 audio tracks\<close> and one entry of \<open>tracks\<close> is marked \<open>fixed\<close>. A second call
  right after reports none fixed and changes nothing.
\<close>

theorem C5_repair_once:
  assumes "currentSession w = Some sid"
    and "sessionDescriptionHandler (sessions w sid) = Some sdh"
    and "peerConnection sdh = Some pc"
    and "senders pc = pre @ s # post"
    and "\<forall>x\<in>set pre. \<not> audio_sender (tracks w) x" and "\<forall>x\<in>set post. \<not> audio_sender (tracks w) x"
    and "track s = Some t" and "kind (tracks w t) = audio" and "\<not> enabled (tracks w t)"
    and "debugAudioTracks w = (r1, w1)" and "debugAudioTracks w1 = (r2, w2)"
  shows "enabled (tracks w1 t) \<and>
         status r1 = ''success'' \<and> message r1 = ''Fixed 1 audio tracks'' \<and>
         length (filter fixed (rep_tracks (the (details r1)))) = 1 \<and>
         status r2 = ''success'' \<and> message r2 = ''All audio tracks are properly configured'' \<and>
         length (filter fixed (rep_tracks (the (details r2)))) = 0 \<and>
         w2 = w1"
proof -
  let ?tr1 = "(tracks w)(t := (tracks w t)\<lparr>enabled := True\<rparr>)"
  let ?l1 = "debug_senders (senders pc) (tracks w)"
  let ?l2 = "debug_senders (senders pc) ?tr1"
  have s: "s \<in> set (senders pc)" "audio_sender (tracks w) s"
    using assms(4,7,8) by (simp_all add: audio_sender_def)
  have l1: "store ?l1 = ?tr1" "fixedTracks ?l1 = 1" "length (filter fixed (trackInfo ?l1)) = 1"
    using debug_senders_one_fix [OF assms(5) assms(6) assms(7) assms(8) assms(9)] assms(4)
    by simp_all
  have "audio_sender ?tr1 s"
    using s(2) by (simp only: audio_sender_enabled_upd)
  then have a: "filter (audio_sender ?tr1) (senders pc) \<noteq> []"
    using s(1) by (auto simp: filter_empty_conv)
  have first: "debugAudioTracks w =
     (\<lparr>status = ''success'', message = ''Fixed 1 audio tracks'',
       details = Some (report_details pc (trackInfo ?l1)),
       suggestions = Some server_suggestions\<rparr>, w\<lparr>tracks := ?tr1\<rparr>)"
    using debugAudioTracks_connected [OF assms(1-3)] a l1(1,2)
    by (simp add: decimal_Suc_0)
  have w1: "w1 = w\<lparr>tracks := ?tr1\<rparr>" and r1: "message r1 = ''Fixed 1 audio tracks''"
    "status r1 = ''success''" "rep_tracks (the (details r1)) = trackInfo ?l1"
    using first assms(10) by (auto simp: report_details_def)
  have "\<forall>x\<in>set (senders pc). no_fix ?tr1 x"
    using assms(4-8) by (auto simp: audio_sender_def no_fix_def split: option.splits)
  note n = debug_senders_no_fix [OF this]
  have l2: "store ?l2 = ?tr1" "fixedTracks ?l2 = 0" "length (filter fixed (trackInfo ?l2)) = 0"
    using n by simp_all
  have c: "currentSession w1 = Some sid" "sessionDescriptionHandler (sessions w1 sid) = Some sdh"
    "tracks w1 = ?tr1"
    using assms(1,2) w1 by simp_all
  have a2: "filter (audio_sender (store (debug_senders (senders pc) (tracks w1)))) (senders pc) \<noteq> []"
    using a l2(1) c(3) by simp
  have second: "debugAudioTracks w1 =
     (\<lparr>status = ''success'', message = ''All audio tracks are properly configured'',
       details = Some (report_details pc (trackInfo ?l2)),
       suggestions = Some server_suggestions\<rparr>, w1)"
    using debugAudioTracks_connected [OF c(1) c(2) assms(3) a2] l2(1,2) c(3) w1
    by simp
  have r2: "message r2 = ''All audio tracks are properly configured''" "status r2 = ''success''"
    "rep_tracks (the (details r2)) = trackInfo ?l2" "w2 = w1"
    using second assms(11) by (auto simp: report_details_def)
  show ?thesis
    using w1 r1 r2 l1(3) l2(3) by simp
qed

theorem C5_repair_once_witness:
  "enabled (tracks (snd (debugAudioTracks disabled_audio_world)) 0) \<and>
   message (fst (debugAudioTracks disabled_audio_world)) = ''Fixed 1 audio tracks'' \<and>
   message (fst (debugAudioTracks (snd (debugAudioTracks disabled_audio_world)))) =
     ''All audio tracks are properly configured''"
proof -
  let ?ss = "[\<lparr>track = Some 1\<rparr>, \<lparr>track = Some 0\<rparr>]"
  have pre: "\<forall>x\<in>set [\<lparr>track = Some 1\<rparr>]. \<not> audio_sender (tracks disabled_audio_world) x"
    by (simp add: audio_sender_def disabled_audio_world_def example_defs)
  have post: "\<forall>x\<in>set []. \<not> audio_sender (tracks disabled_audio_world) x" by simp
  show ?thesis
    using C5_repair_once [of disabled_audio_world 0
        "\<lparr>peerConnection = Some (example_connection ?ss)\<rparr>" "example_connection ?ss"
        "[\<lparr>track = Some 1\<rparr>]" "\<lparr>track = Some 0\<rparr>" "[]" 0
        "fst (debugAudioTracks disabled_audio_world)" "snd (debugAudioTracks disabled_audio_world)"
        "fst (debugAudioTracks (snd (debugAudioTracks disabled_audio_world)))"
        "snd (debugAudioTracks (snd (debugAudioTracks disabled_audio_world)))",
        OF _ _ _ _ pre post]
    by (simp add: disabled_audio_world_def example_defs)
qed

text \<open>
  C6. When the active session's connection has no audio sender, \<open>debugAudioTracks\<close>
  returns the report with status \<open>error\<close> and message \<open>No audio tracks found\<close>, which
  carries no suggestions and differs from both success messages; nothing is changed.
\<close>

theorem C6_no_audio_report:
  assumes "currentSession w = Some sid"
    and "sessionDescriptionHandler (sessions w sid) = Some sdh"
    and "peerConnection sdh = Some pc"
    and "\<forall>x\<in>set (senders pc). \<not> audio_sender (tracks w) x"
  shows "status (fst (debugAudioTracks w)) = ''error'' \<and>
         message (fst (debugAudioTracks w)) = ''No audio tracks found'' \<and>
         suggestions (fst (debugAudioTracks w)) = None \<and>
         snd (debugAudioTracks w) = w"
proof -
  have "\<forall>x\<in>set (senders pc). no_fix (tracks w) x"
    using assms(4) not_audio_no_fix by blast
  note l = debug_senders_no_fix [OF this]
  have f: "filter (audio_sender (tracks w)) (senders pc) = []"
    using assms(4) by (simp add: filter_empty_conv)
  show ?thesis
    using assms(1-3) l f by (simp add: debugAudioTracks_def Let_def)
qed

theorem C6_no_audio_report_witness:
  "status (fst (debugAudioTracks video_only_world)) = ''error'' \<and>
   message (fst (debugAudioTracks video_only_world)) = ''No audio tracks found''"
proof -
  have "\<forall>x\<in>set [\<lparr>track = None\<rparr>, \<lparr>track = Some 1\<rparr>]. \<not> audio_sender (tracks video_only_world) x"
    by (simp add: audio_sender_def video_only_world_def example_defs)
  then show ?thesis
    using C6_no_audio_report [of video_only_world 0
        "\<lparr>peerConnection = Some (example_connection [\<lparr>track = None\<rparr>, \<lparr>track = Some 1\<rparr>])\<rparr>"
        "example_connection [\<lparr>track = None\<rparr>, \<lparr>track = Some 1\<rparr>]"]
    by (simp add: video_only_world_def example_defs)
qed

subsection \<open>hangupCall\<close>

lemma hangupCall_clears: "currentSession (hangupCall w) = None"
  by (simp add: hangupCall_def Let_def split: option.splits)

lemma hangupCall_idle: "currentSession w = None \<Longrightarrow> hangupCall w = w"
  by (simp add: hangupCall_def)

text \<open>
  C4. \<open>hangupCall\<close> always returns, with \<open>currentSession\<close> cleared. A second call right
  after the first leaves the state exactly as the first left it: no request is sent, no
  listener added, nothing thrown. So does any call made while no session is active.
\<close>

theorem C4_hangup_idempotent:
  "currentSession (hangupCall w) = None \<and>
   hangupCall (hangupCall w) = hangupCall w \<and>
   (currentSession w = None \<longrightarrow> hangupCall w = w)"
  using hangupCall_clears [of w] hangupCall_idle [of "hangupCall w"] hangupCall_idle [of w]
  by simp

theorem C4_hangup_idempotent_witness:
  "currentSession idle_world = None \<and> hangupCall idle_world = idle_world \<and>
   requests (sessions (hangupCall call_world) 0) = [Bye] \<and>
   requests (sessions (hangupCall (hangupCall call_world)) 0) = [Bye] \<and>
   requests (sessions (hangupCall (hangupCall ringing_world)) 0) = [Reject]"
proof -
  have "currentSession idle_world = None"
    by (simp add: idle_world_def example_defs)
  moreover have "requests (sessions (hangupCall call_world) 0) = [Bye]"
    by (simp add: hangupCall_def hangup_requests_def call_world_def example_defs)
  moreover have "requests (sessions (hangupCall ringing_world) 0) = [Reject]"
    by (simp add: hangupCall_def hangup_requests_def ringing_world_def example_defs)
  ultimately show ?thesis
    using C4_hangup_idempotent [of idle_world] C4_hangup_idempotent [of call_world]
      C4_hangup_idempotent [of ringing_world]
    by simp
qed

subsection \<open>The hold flag outlives the call\<close>

lemma hangupCall_isOnHold: "isOnHold (hangupCall w) = isOnHold w"
  by (simp add: hangupCall_def Let_def split: option.splits)

lemma onInvite_isOnHold: "isOnHold (onInvite i w) = isOnHold w"
  by (simp add: onInvite_def)

lemma alloc_tracks_frame:
  "isOnHold (snd (alloc_tracks ts w)) = isOnHold w"
  "currentSession (snd (alloc_tracks ts w)) = currentSession w"
  "sessions (snd (alloc_tracks ts w)) = sessions w"
  "next_session (snd (alloc_tracks ts w)) = next_session w"
  "ua (snd (alloc_tracks ts w)) = ua w"
  "effects (snd (alloc_tracks ts w)) = effects w"
  by (simp_all add: alloc_tracks_def)

lemma accept_failed_isOnHold: "isOnHold (snd (accept_failed e i w)) = isOnHold w"
  by (simp add: accept_failed_def split: option.splits)

lemma makeCall_isOnHold: "isOnHold (snd (makeCall g m i target v w)) = isOnHold w"
  by (simp add: makeCall_def Let_def alloc_tracks_def split: sum.splits option.splits prod.splits)

lemma acceptCall_isOnHold: "isOnHold (snd (acceptCall g a invitation v w)) = isOnHold w"
  by (simp add: acceptCall_def Let_def alloc_tracks_def accept_failed_isOnHold
      split: sum.splits option.splits prod.splits)

lemma holdCall_success: "holdCall b w = (True, w1) \<Longrightarrow> isOnHold w1 = b"
  by (auto simp: holdCall_def split: option.splits)

text \<open>
  C10. \<open>hangupCall\<close> does not reset \<open>isOnHold\<close>. After a \<open>holdCall(true)\<close> that returned
  \<open>true\<close> and a \<open>hangupCall\<close>, \<open>isCallOnHold()\<close> is still \<open>true\<close> although no session is
  active, and it is still \<open>true\<close> after a following \<open>makeCall\<close>, and after a following
  invitation and \<open>acceptCall\<close>, whatever their parameters and outcome.
\<close>

theorem C10_stale_hold_flag:
  assumes "holdCall True w = (True, w1)"
  shows "isCallOnHold (hangupCall w1) \<and> currentSession (hangupCall w1) = None \<and>
         isCallOnHold (snd (makeCall g m i target v (hangupCall w1))) \<and>
         isCallOnHold (snd (acceptCall g' a invitation v' (onInvite invitation (hangupCall w1))))"
  using holdCall_success [OF assms]
  by (simp add: isCallOnHold_def hangupCall_isOnHold hangupCall_clears makeCall_isOnHold
      acceptCall_isOnHold onInvite_isOnHold)

theorem C10_stale_hold_flag_witness:
  "fst (holdCall True call_world) \<and>
   isCallOnHold (hangupCall (snd (holdCall True call_world))) \<and>
   currentSession (hangupCall (snd (holdCall True call_world))) = None \<and>
   fst (makeCall (grant [audio_track]) (\<lambda>u. True) None ''bob'' False
          (hangupCall (snd (holdCall True call_world)))) = Inr 1 \<and>
   isCallOnHold (snd (makeCall (grant [audio_track]) (\<lambda>u. True) None ''bob'' False
          (hangupCall (snd (holdCall True call_world)))))"
proof -
  have h: "holdCall True call_world = (True, snd (holdCall True call_world))"
    by (simp add: holdCall_def call_world_def example_defs)
  have hf: "fst (holdCall True call_world)"
    by (simp add: holdCall_def call_world_def example_defs)
  have m: "fst (makeCall (grant [audio_track]) (\<lambda>u. True) None ''bob'' False
          (hangupCall (snd (holdCall True call_world)))) = Inr 1"
    by (simp add: makeCall_def Let_def alloc_tracks_def grant_def format_target_def startsWith_def
        hangupCall_def holdCall_def call_world_def example_defs)
  show ?thesis
    using C10_stale_hold_flag [OF h, of "grant [audio_track]" "\<lambda>u. True" None "''bob''" False]
      hf m by simp
qed

subsection \<open>acceptCall when the media cannot be acquired\<close>

lemma user_message_None:
  "user_message (Error msg) = None"
  "user_message (DOMException name msg) = None \<longleftrightarrow>
     name \<noteq> ''NotAllowedError'' \<and> name \<noteq> ''PermissionDeniedError'' \<and> name \<noteq> ''NotFoundError''"
  by (simp_all add: user_message_def)

lemma user_message_Some:
  "user_message error = Some shown \<Longrightarrow> shown \<noteq> error"
  by (auto simp: user_message_def access_denied_def not_found_def split: JsError.splits if_splits)

text \<open>
  C2 (as amended). When \<open>getUserMedia\<close> rejects in \<open>acceptCall\<close> with an error that is
  not a \<open>DOMException\<close> named \<open>NotAllowedError\<close>, \<open>PermissionDeniedError\<close> or
  \<open>NotFoundError\<close>, \<open>reject()\<close> is called on the invitation and that same error is thrown.
  When it rejects with one of those three, the error thrown is a new one carrying a message
  for the user, not the error of the acquisition.
\<close>

theorem C2_reject_on_media_failure:
  assumes "getUserMedia \<lparr>c_audio = True, c_video = (if withVideo then AnyVideo else NoVideo)\<rparr> = Inl error"
    and "acceptCall getUserMedia accept invitation withVideo w = (result, w')"
  shows "(user_message error = None \<longrightarrow>
            result = Inl error \<and>
            requests (sessions w' invitation) = requests (sessions w invitation) @ [Reject]) \<and>
         (\<forall>shown. user_message error = Some shown \<longrightarrow> result = Inl shown \<and> shown \<noteq> error)"
  using assms user_message_Some [of error]
  by (auto simp: acceptCall_def Let_def accept_failed_def split: option.splits)

theorem C2_reject_on_media_failure_witness:
  "user_message (DOMException ''NotReadableError'' ''Could not start audio source'') = None \<and>
   fst (acceptCall (deny (DOMException ''NotReadableError'' ''Could not start audio source''))
          None 0 True ringing_world) =
     Inl (DOMException ''NotReadableError'' ''Could not start audio source'') \<and>
   requests (sessions (snd (acceptCall
       (deny (DOMException ''NotReadableError'' ''Could not start audio source''))
          None 0 True ringing_world)) 0) = [Reject]"
proof -
  let ?e = "DOMException ''NotReadableError'' ''Could not start audio source''"
  have u: "user_message ?e = None" by (simp add: user_message_def)
  have r: "requests (sessions ringing_world 0) = []"
    by (simp add: ringing_world_def example_defs)
  show ?thesis
    using C2_reject_on_media_failure [of "deny ?e" True ?e None 0 ringing_world
        "fst (acceptCall (deny ?e) None 0 True ringing_world)"
        "snd (acceptCall (deny ?e) None 0 True ringing_world)"] u r
    by (simp add: deny_def)
qed

text \<open>The claim as stated fails on a denied permission: the error thrown is not the
  one \<open>getUserMedia\<close> rejected with, \<open>reject()\<close> is not called, and the invitation is left
  as it was, in state \<open>Initial\<close>.\<close>

theorem C2_counterexample:
  "state (sessions ringing_world 0) = Initial \<and>
   fst (acceptCall (deny (DOMException ''NotAllowedError'' ''Permission denied'')) None 0 True
          ringing_world) \<noteq> Inl (DOMException ''NotAllowedError'' ''Permission denied'') \<and>
   Reject \<notin> set (requests (sessions (snd (acceptCall
       (deny (DOMException ''NotAllowedError'' ''Permission denied'')) None 0 True
          ringing_world)) 0)) \<and>
   sessions (snd (acceptCall
       (deny (DOMException ''NotAllowedError'' ''Permission denied'')) None 0 True
          ringing_world)) = sessions ringing_world"
  by (simp add: acceptCall_def Let_def accept_failed_def user_message_def access_denied_def
      deny_def ringing_world_def example_defs)

subsection \<open>makeCall: the target\<close>

text \<open>
  C3 (as amended). \<open>makeCall\<close> acquires the media first. When the acquisition succeeds and
  no URI can be made of the formatted target, it throws the invalid-target error naming the
  formatted target; no inviter is created and \<open>currentSession\<close> is unchanged; the
  acquisition has been made, and the delivered tracks are in the store as delivered, none
  stopped.
\<close>

theorem C3_invalid_target_after_media:
  assumes "getUserMedia \<lparr>c_audio = True, c_video = (if withVideo then AnyVideo else NoVideo)\<rparr> = Inr ts"
    and "format_target (ua w) target = Inr formattedTarget"
    and "\<not> makeURI formattedTarget"
    and "makeCall getUserMedia makeURI invite target withVideo w = (result, w')"
  shows "result = Inl (invalid_target formattedTarget) \<and>
         effects w' = effects w @
           [GetUserMedia \<lparr>c_audio = True, c_video = (if withVideo then AnyVideo else NoVideo)\<rparr>] \<and>
         next_track w' = next_track w + length ts \<and>
         (\<forall>i < length ts. tracks w' (next_track w + i) = ts ! i) \<and>
         currentSession w' = currentSession w \<and> sessions w' = sessions w \<and>
         next_session w' = next_session w"
  using assms
  by (auto simp: makeCall_def Let_def alloc_tracks_def rethrow_def user_message_def invalid_target_def
      split: sum.splits option.splits prod.splits)

theorem C3_invalid_target_after_media_witness:
  "fst (makeCall (grant [audio_track]) (\<lambda>u. False) None ''bob smith'' False idle_world) =
     Inl (invalid_target ''sip:bob smith@example.com'') \<and>
   currentSession (snd (makeCall (grant [audio_track]) (\<lambda>u. False) None ''bob smith'' False idle_world)) = None"
proof -
  have f: "format_target (ua idle_world) ''bob smith'' = Inr ''sip:bob smith@example.com''"
    by (simp add: format_target_def startsWith_def registered_domain_def at_index_def
        idle_world_def example_defs)
  have c: "currentSession idle_world = None" by (simp add: idle_world_def example_defs)
  show ?thesis
    using C3_invalid_target_after_media [of "grant [audio_track]" False "[audio_track]" idle_world
        "''bob smith''" "''sip:bob smith@example.com''" "\<lambda>u. False" None
        "fst (makeCall (grant [audio_track]) (\<lambda>u. False) None ''bob smith'' False idle_world)"
        "snd (makeCall (grant [audio_track]) (\<lambda>u. False) None ''bob smith'' False idle_world)"] f c
    by (simp add: grant_def)
qed

text \<open>The claim as stated fails: for a target no URI can be made of, \<open>getUserMedia\<close>
  has been called when the invalid-target error is thrown, and the track it delivered is
  still live.\<close>

theorem C3_counterexample:
  "fst (makeCall (grant [audio_track]) (\<lambda>u. False) None ''bob smith'' False idle_world) =
     Inl (invalid_target ''sip:bob smith@example.com'') \<and>
   effects (snd (makeCall (grant [audio_track]) (\<lambda>u. False) None ''bob smith'' False idle_world)) =
     [GetUserMedia \<lparr>c_audio = True, c_video = NoVideo\<rparr>] \<and>
   readyState (tracks (snd (makeCall (grant [audio_track]) (\<lambda>u. False) None ''bob smith'' False
     idle_world)) 2) = live"
  by (simp add: makeCall_def Let_def alloc_tracks_def grant_def format_target_def startsWith_def
      registered_domain_def at_index_def rethrow_def user_message_def invalid_target_def
      idle_world_def example_defs)

text \<open>The pieces of \<open>split\<close>, and the domain \<open>makeCall\<close> reads off a URI's text.\<close>

lemma split_nonempty: "split c s \<noteq> []"
  by (induction s) (auto split: list.splits)

lemma split_no_sep: "c \<notin> set a \<Longrightarrow> split c a = [a]"
  by (induction a) auto

lemma split_sep: "c \<notin> set a \<Longrightarrow> split c (a @ c # b) = a # split c b"
  by (induction a) auto

lemma hd_split: "hd (split c s) = takeWhile (\<lambda>x. x \<noteq> c) s"
  by (induction s) (auto split: list.splits simp: split_nonempty)

lemma at_index_0: "at_index (split c s) 0 = Some (takeWhile (\<lambda>x. x \<noteq> c) s)"
  using split_nonempty [of c s] hd_split [of c s]
  by (cases "split c s") (simp_all add: at_index_def)

lemma takeWhile_no_sep:
  "c \<notin> set h \<Longrightarrow> takeWhile (\<lambda>x. x \<noteq> c) (h @ rest) = h @ takeWhile (\<lambda>x. x \<noteq> c) rest"
  by (induction h) auto

lemma takeWhile_all: "c \<notin> set h \<Longrightarrow> takeWhile (\<lambda>x. x \<noteq> c) h = h"
  by (induction h) auto

lemma at_index_1_none: "c \<notin> set a \<Longrightarrow> at_index (split c a) (Suc 0) = None"
  by (simp add: split_no_sep at_index_def)

lemma at_index_1_some:
  "c \<notin> set a \<Longrightarrow> at_index (split c (a @ c # b)) (Suc 0) = Some (takeWhile (\<lambda>x. x \<noteq> c) b)"
  using split_nonempty [of c b] hd_split [of c b]
  by (cases "split c b") (simp_all add: split_sep at_index_def)

lemma registered_domain_default:
  "CHR ''@'' \<notin> set r \<Longrightarrow> registered_domain r = default_domain"
  by (simp add: registered_domain_def at_index_1_none)

lemma registered_domain_host:
  assumes "CHR ''@'' \<notin> set a" and "CHR ''@'' \<notin> set h" and "CHR '';'' \<notin> set h"
    and "rest = [] \<or> hd rest = CHR '';'' \<or> hd rest = CHR ''@''"
  shows "registered_domain (a @ ''@'' @ h @ rest) = (if h = [] then default_domain else h)"
proof -
  have 1: "at_index (split CHR ''@'' (a @ ''@'' @ h @ rest)) (Suc 0) =
      Some (takeWhile (\<lambda>x. x \<noteq> CHR ''@'') (h @ rest))"
    using at_index_1_some [OF assms(1), of "h @ rest"] by simp
  have 2: "takeWhile (\<lambda>x. x \<noteq> CHR '';'') (takeWhile (\<lambda>x. x \<noteq> CHR ''@'') (h @ rest)) = h"
  proof (cases rest)
    case Nil
    then show ?thesis
      by (simp add: takeWhile_all [OF assms(2)] takeWhile_all [OF assms(3)])
  next
    case (Cons x xs)
    then have x: "x = CHR '';'' \<or> x = CHR ''@''" using assms(4) by simp
    have "takeWhile (\<lambda>x. x \<noteq> CHR '';'') (h @ takeWhile (\<lambda>x. x \<noteq> CHR ''@'') (x # xs)) = h"
      using x takeWhile_no_sep [OF assms(3), of "takeWhile (\<lambda>x. x \<noteq> CHR ''@'') (x # xs)"]
      by auto
    then show ?thesis
      using Cons takeWhile_no_sep [OF assms(2), of rest] by simp
  qed
  show ?thesis
    using 1 2 by (simp add: registered_domain_def at_index_0)
qed

lemma format_target_plain:
  assumes "\<not> startsWith target ''sip:''" and "\<not> startsWith target ''sips:''"
    and "CHR ''@'' \<notin> set target" and "agent = Some u"
  shows "format_target agent target =
     Inr (''sip:'' @ target @ ''@'' @
          registered_domain (case configuration_uri u of None \<Rightarrow> [] | Some text \<Rightarrow> text))"
  using assms by (simp add: format_target_def Let_def)

lemma makeCall_dispatch:
  assumes "getUserMedia \<lparr>c_audio = True, c_video = (if withVideo then AnyVideo else NoVideo)\<rparr> = Inr ts"
    and "format_target (ua w) target = Inr formattedTarget"
    and "makeURI formattedTarget" and "ua w = Some u"
    and "makeCall getUserMedia makeURI None target withVideo w = (result, w')"
  shows "result = Inr (next_session w) \<and> currentSession w' = Some (next_session w) \<and>
         sessionClass (sessions w' (next_session w)) = Inviter \<and>
         targetURI (sessions w' (next_session w)) = Some (URI formattedTarget) \<and>
         requests (sessions w' (next_session w)) = [Invite]"
  using assms
  by (auto simp: makeCall_def Let_def alloc_tracks_def split: prod.splits)

text \<open>
  C8 (as amended). For a target with no \<open>@\<close> that starts with neither \<open>sip:\<close> nor
  \<open>sips:\<close>, when the acquisition succeeds and a URI can be made of it, \<open>makeCall\<close> creates
  the inviter for \<open>sip:<target>@<domain>\<close>, makes it the current session and calls
  \<open>invite()\<close> on it. The domain is read off the text of the user agent's URI: the text
  between its first \<open>@\<close> and the next \<open>@\<close> or \<open>;\<close> (or the end); it is the fixed
  \<open>jsmwebrtc.my.id\<close> when that text is empty or the URI's text has no \<open>@\<close>.
\<close>

theorem C8_target_normalised:
  assumes "\<not> startsWith target ''sip:''" and "\<not> startsWith target ''sips:''"
    and "CHR ''@'' \<notin> set target"
    and "ua w = Some u"
    and "(case configuration_uri u of None \<Rightarrow> [] | Some text \<Rightarrow> text) = registeredURI"
    and "(CHR ''@'' \<notin> set registeredURI \<and> domain = default_domain) \<or>
         (\<exists>a h rest. registeredURI = a @ ''@'' @ h @ rest \<and>
            CHR ''@'' \<notin> set a \<and> CHR ''@'' \<notin> set h \<and> CHR '';'' \<notin> set h \<and>
            (rest = [] \<or> hd rest = CHR '';'' \<or> hd rest = CHR ''@'') \<and>
            domain = (if h = [] then default_domain else h))"
    and "getUserMedia \<lparr>c_audio = True, c_video = (if withVideo then AnyVideo else NoVideo)\<rparr> = Inr ts"
    and "makeURI (''sip:'' @ target @ ''@'' @ domain)"
    and "makeCall getUserMedia makeURI None target withVideo w = (result, w')"
  shows "result = Inr (next_session w) \<and> currentSession w' = Some (next_session w) \<and>
         sessionClass (sessions w' (next_session w)) = Inviter \<and>
         targetURI (sessions w' (next_session w)) = Some (URI (''sip:'' @ target @ ''@'' @ domain)) \<and>
         requests (sessions w' (next_session w)) = [Invite]"
proof -
  have d: "registered_domain registeredURI = domain"
    using assms(6) registered_domain_default registered_domain_host by blast
  have f: "format_target (ua w) target = Inr (''sip:'' @ target @ ''@'' @ domain)"
    using format_target_plain [OF assms(1) assms(2) assms(3) assms(4)] assms(5) d by simp
  show ?thesis
    using makeCall_dispatch [OF assms(7) f assms(8) assms(4) assms(9)] .
qed

theorem C8_target_normalised_witness:
  "targetURI (sessions (snd (makeCall (grant [audio_track]) (\<lambda>u. True) None ''bob'' False idle_world)) 1)
     = Some (URI ''sip:bob@example.com'') \<and>
   requests (sessions (snd (makeCall (grant [audio_track]) (\<lambda>u. True) None ''bob'' False idle_world)) 1)
     = [Invite]"
proof -
  have u: "ua idle_world = Some \<lparr>configuration_uri = Some ''sip:alice@example.com''\<rparr>"
    "next_session idle_world = 1"
    by (simp_all add: idle_world_def example_defs)
  have r: "\<exists>a h rest. ''sip:alice@example.com'' = a @ ''@'' @ h @ rest \<and>
            CHR ''@'' \<notin> set a \<and> CHR ''@'' \<notin> set h \<and> CHR '';'' \<notin> set h \<and>
            (rest = [] \<or> hd rest = CHR '';'' \<or> hd rest = CHR ''@'') \<and>
            ''example.com'' = (if h = [] then default_domain else h)"
    by (rule exI [of _ "''sip:alice''"], rule exI [of _ "''example.com''"], rule exI [of _ "[]"]) simp
  show ?thesis
    using C8_target_normalised [of "''bob''" idle_world "\<lparr>configuration_uri = Some ''sip:alice@example.com''\<rparr>"
        "''sip:alice@example.com''" "''example.com''" "grant [audio_track]" False "[audio_track]"
        "\<lambda>u. True"
        "fst (makeCall (grant [audio_track]) (\<lambda>u. True) None ''bob'' False idle_world)"
        "snd (makeCall (grant [audio_track]) (\<lambda>u. True) None ''bob'' False idle_world)"] u r
    by (simp add: startsWith_def grant_def)
qed

text \<open>The claim as stated fails for a user agent registered as \<open>sip:example.com\<close>: the
  target \<open>bob\<close> becomes \<open>sip:bob@jsmwebrtc.my.id\<close>, a domain that is not the user agent's.\<close>

theorem C8_counterexample:
  "ua bare_host_world = Some \<lparr>configuration_uri = Some ''sip:example.com''\<rparr> \<and>
   fst (makeCall (grant [audio_track]) (\<lambda>u. True) None ''bob'' False bare_host_world) = Inr 1 \<and>
   targetURI (sessions (snd (makeCall (grant [audio_track]) (\<lambda>u. True) None ''bob'' False
     bare_host_world)) 1) = Some (URI ''sip:bob@jsmwebrtc.my.id'') \<and>
   targetURI (sessions (snd (makeCall (grant [audio_track]) (\<lambda>u. True) None ''bob'' False
     bare_host_world)) 1) \<noteq> Some (URI ''sip:bob@example.com'')"
  by (simp add: makeCall_def Let_def alloc_tracks_def grant_def format_target_def startsWith_def
      registered_domain_def at_index_def default_domain_def bare_host_world_def
      idle_world_def example_defs)

subsection \<open>switchCamera\<close>

lemma find_video_sender_found:
  "find_video_sender tr ss n = Some (i, t) \<Longrightarrow>
   n \<le> i \<and> i - n < length ss \<and> track (ss ! (i - n)) = Some t \<and> kind (tr t) = video"
proof (induction ss arbitrary: n)
  case Nil
  then show ?case by simp
next
  case (Cons s ss)
  show ?case
  proof (cases "\<exists>a. track s = Some a \<and> kind (tr a) = video")
    case True
    then show ?thesis using Cons.prems by auto
  next
    case False
    then have "find_video_sender tr ss (n + 1) = Some (i, t)"
      using Cons.prems by (auto split: option.splits if_splits)
    from Cons.IH [OF this] have ih: "Suc n \<le> i" "i - Suc n < length ss"
      "track (ss ! (i - Suc n)) = Some t" "kind (tr t) = video"
      by simp_all
    have "i - n = Suc (i - Suc n)" using ih(1) by arith
    then show ?thesis using ih by simp
  qed
qed

lemma switchCamera_denied:
  assumes "currentSession w = Some sid"
    and "sessionDescriptionHandler (sessions w sid) = Some sdh"
    and "peerConnection sdh = Some pc"
    and "find_video_sender (tracks w) (senders pc) 0 = Some (i, old)"
    and "getUserMedia (facing_request (tracks w old)) = Inl error"
  shows "switchCamera getUserMedia replaceTrack w =
     (False, w\<lparr>effects := effects w @ [GetUserMedia (facing_request (tracks w old))]\<rparr>)"
  using assms by (simp add: switchCamera_def facing_request_def Let_def)

lemma switchCamera_delivered:
  assumes "currentSession w = Some sid"
    and "sessionDescriptionHandler (sessions w sid) = Some sdh"
    and "peerConnection sdh = Some pc"
    and "find_video_sender (tracks w) (senders pc) 0 = Some (i, old)"
    and "getUserMedia (facing_request (tracks w old)) = Inr ts"
    and "w2 = snd (alloc_tracks ts (w\<lparr>effects := effects w @ [GetUserMedia (facing_request (tracks w old))]\<rparr>))"
    and "newTrack = find (\<lambda>a. kind (tracks w2 a) = video) [next_track w ..< next_track w + length ts]"
    and "w3 = w2\<lparr>effects := effects w2 @ [ReplaceTrack i newTrack]\<rparr>"
  shows "switchCamera getUserMedia replaceTrack w =
     (case replaceTrack of
        Some error \<Rightarrow> (False, w3)
      | None \<Rightarrow>
          (True, (set_sender_track sid i newTrack w3)
             \<lparr>tracks := (tracks (set_sender_track sid i newTrack w3))(old :=
                  (tracks (set_sender_track sid i newTrack w3) old)\<lparr>readyState := ended\<rparr>),
              effects := effects (set_sender_track sid i newTrack w3) @ [StopTrack old]\<rparr>))"
  using assms(1-5) unfolding assms(6-8)
  by (simp add: switchCamera_def facing_request_def Let_def alloc_tracks_def split: option.splits)

lemma set_sender_track_frame:
  "tracks (set_sender_track sid i new w) = tracks w"
  "effects (set_sender_track sid i new w) = effects w"
  "next_track (set_sender_track sid i new w) = next_track w"
  by (simp_all add: set_sender_track_def Let_def)

lemma set_sender_track_sender:
  assumes "sessionDescriptionHandler (sessions w sid) = Some sdh"
    and "peerConnection sdh = Some pc" and "i < length (senders pc)"
  shows "video_sender_track (set_sender_track sid i new w) sid i = new"
  using assms by (simp add: set_sender_track_def video_sender_track_def Let_def)

lemma find_delivered_video:
  assumes "\<exists>tk\<in>set ts. kind tk = video"
    and "\<forall>a. n \<le> a \<and> a < n + length ts \<longrightarrow> tr a = ts ! (a - n)"
  shows "\<exists>new. find (\<lambda>a. kind (tr a) = video) [n ..< n + length ts] = Some new \<and>
           n \<le> new \<and> new < n + length ts \<and> kind (tr new) = video"
proof -
  obtain k where k: "k < length ts" "kind (ts ! k) = video"
    using assms(1) by (auto simp: in_set_conv_nth)
  have "n + k \<in> set [n ..< n + length ts]" "kind (tr (n + k)) = video"
    using k assms(2) by simp_all
  then have "find (\<lambda>a. kind (tr a) = video) [n ..< n + length ts] \<noteq> None"
    unfolding find_None_iff by blast
  then obtain new where f: "find (\<lambda>a. kind (tr a) = video) [n ..< n + length ts] = Some new"
    by blast
  have "new \<in> set [n ..< n + length ts]" "kind (tr new) = video"
    using f by (auto simp: find_Some_iff)
  then show ?thesis using f by simp
qed

text \<open>
  C9. Let the first video sender of the active session's connection hold a live track, and
  let \<open>getUserMedia\<close>, when it delivers, deliver live tracks with a video track among them
  (as the browser does for a video request). If \<open>switchCamera\<close> returns \<open>true\<close>, then
  \<open>replaceTrack\<close> resolved, the sender holds the newly delivered video track, which is
  live, the old track is ended, and the calls were made in the order \<open>getUserMedia\<close>,
  \<open>replaceTrack\<close>, \<open>stop\<close>. If it returns \<open>false\<close> (the acquisition or \<open>replaceTrack\<close>
  failed), \<open>stop\<close> was not called: the sender still holds the old track and it is live.
\<close>

theorem C9_switch_keeps_live_track:
  assumes "currentSession w = Some sid"
    and "sessionDescriptionHandler (sessions w sid) = Some sdh"
    and "peerConnection sdh = Some pc"
    and "find_video_sender (tracks w) (senders pc) 0 = Some (i, old)"
    and "readyState (tracks w old) = live"
    and "old < next_track w"
    and "\<forall>ts. getUserMedia (facing_request (tracks w old)) = Inr ts \<longrightarrow>
           (\<forall>tk\<in>set ts. readyState tk = live) \<and> (\<exists>tk\<in>set ts. kind tk = video)"
    and "switchCamera getUserMedia replaceTrack w = (ok, w')"
  shows "(ok \<longrightarrow> replaceTrack = None \<and>
           (\<exists>new. next_track w \<le> new \<and>
              video_sender_track w' sid i = Some new \<and>
              kind (tracks w' new) = video \<and> readyState (tracks w' new) = live \<and>
              readyState (tracks w' old) = ended \<and>
              effects w' = effects w @
                [GetUserMedia (facing_request (tracks w old)), ReplaceTrack i (Some new), StopTrack old])) \<and>
         (\<not> ok \<longrightarrow>
            video_sender_track w' sid i = Some old \<and> readyState (tracks w' old) = live \<and>
            StopTrack old \<notin> set (drop (length (effects w)) (effects w')))"
proof -
  let ?c = "facing_request (tracks w old)"
  note fv = find_video_sender_found [OF assms(4)]
  have i: "i < length (senders pc)" "track (senders pc ! i) = Some old"
    using fv by simp_all
  have before: "video_sender_track w sid i = Some old"
    using assms(2,3) i(2) by (simp add: video_sender_track_def)
  show ?thesis
  proof (cases "getUserMedia ?c")
    case (Inl error)
    have "switchCamera getUserMedia replaceTrack w = (False, w\<lparr>effects := effects w @ [GetUserMedia ?c]\<rparr>)"
      using switchCamera_denied [where getUserMedia = getUserMedia, OF assms(1-4) Inl] .
    then have r: "ok = False" "w' = w\<lparr>effects := effects w @ [GetUserMedia ?c]\<rparr>"
      using assms(8) by simp_all
    show ?thesis
      using before assms(5) by (simp add: r video_sender_track_def)
  next
    case (Inr ts)
    let ?w1 = "w\<lparr>effects := effects w @ [GetUserMedia ?c]\<rparr>"
    define w2 where "w2 = snd (alloc_tracks ts ?w1)"
    define newTrack where
      "newTrack = find (\<lambda>a. kind (tracks w2 a) = video) [next_track w ..< next_track w + length ts]"
    define w3 where "w3 = w2\<lparr>effects := effects w2 @ [ReplaceTrack i newTrack]\<rparr>"
    have contract: "\<forall>tk\<in>set ts. readyState tk = live" "\<exists>tk\<in>set ts. kind tk = video"
      using assms(7) Inr by blast+
    have t2: "\<forall>a. next_track w \<le> a \<and> a < next_track w + length ts \<longrightarrow>
                tracks w2 a = ts ! (a - next_track w)"
      and old2: "tracks w2 old = tracks w old"
      and s2: "sessions w2 = sessions w"
      and e2: "effects w2 = effects w @ [GetUserMedia ?c]"
      using assms(6) by (simp_all add: w2_def alloc_tracks_def)
    obtain new where new: "newTrack = Some new" "next_track w \<le> new"
      "new < next_track w + length ts" "kind (tracks w2 new) = video"
      using find_delivered_video [OF contract(2) t2] unfolding newTrack_def by blast
    have live_new: "readyState (tracks w2 new) = live"
      using t2 new(2,3) contract(1) by simp
    have neq: "new \<noteq> old" using new(2) assms(6) by simp
    note run = switchCamera_delivered [where getUserMedia = getUserMedia and replaceTrack = replaceTrack,
        OF assms(1-4) Inr w2_def newTrack_def w3_def]
    show ?thesis
    proof (cases replaceTrack)
      case (Some error)
      then have r: "ok = False" "w' = w3"
        using run assms(8) by simp_all
      have "video_sender_track w3 sid i = Some old"
        using before s2 by (simp add: w3_def video_sender_track_def)
      moreover have "readyState (tracks w3 old) = live"
        using old2 assms(5) by (simp add: w3_def)
      moreover have "effects w3 = effects w @ [GetUserMedia ?c, ReplaceTrack i newTrack]"
        using e2 by (simp add: w3_def)
      ultimately show ?thesis by (simp add: r)
    next
      case None
      let ?w4 = "set_sender_track sid i newTrack w3"
      have r: "ok = True" "w' = ?w4\<lparr>tracks := (tracks ?w4)(old :=
                  (tracks ?w4 old)\<lparr>readyState := ended\<rparr>),
              effects := effects ?w4 @ [StopTrack old]\<rparr>"
        using run assms(8) None by simp_all
      have s3: "sessionDescriptionHandler (sessions w3 sid) = Some sdh"
        using s2 assms(2) by (simp add: w3_def)
      have sender: "video_sender_track ?w4 sid i = Some new"
        using set_sender_track_sender [OF s3 assms(3) i(1), of newTrack] new(1) by simp
      have sender': "video_sender_track w' sid i = Some new"
        using sender by (simp add: r(2) video_sender_track_def)
      have t4: "tracks ?w4 = tracks w2" "effects ?w4 = effects w @ [GetUserMedia ?c, ReplaceTrack i (Some new)]"
        using e2 new(1) by (simp_all add: set_sender_track_frame w3_def)
      have "kind (tracks w' new) = video" "readyState (tracks w' new) = live"
        "readyState (tracks w' old) = ended"
        "effects w' = effects w @ [GetUserMedia ?c, ReplaceTrack i (Some new), StopTrack old]"
        using neq new(4) live_new t4 by (simp_all add: r(2))
      then show ?thesis
        using None r(1) sender' new(2) by blast
    qed
  qed
qed

theorem C9_switch_keeps_live_track_witness:
  "fst (switchCamera (grant [environment_camera]) None call_world) \<and>
   video_sender_track (snd (switchCamera (grant [environment_camera]) None call_world)) 0 1 = Some 2 \<and>
   readyState (tracks (snd (switchCamera (grant [environment_camera]) None call_world)) 2) = live \<and>
   readyState (tracks (snd (switchCamera (grant [environment_camera]) None call_world)) 1) = ended \<and>
   effects (snd (switchCamera (grant [environment_camera]) None call_world)) =
     [GetUserMedia \<lparr>c_audio = False, c_video = Facing ''environment''\<rparr>,
      ReplaceTrack 1 (Some 2), StopTrack 1]"
proof -
  let ?ss = "[\<lparr>track = Some 0\<rparr>, \<lparr>track = Some 1\<rparr>]"
  let ?g = "grant [environment_camera]"
  have f: "find_video_sender (tracks call_world) (senders (example_connection ?ss)) 0 = Some (1, 1)"
    by (simp add: call_world_def example_defs)
  have c: "\<forall>ts. ?g (facing_request (tracks call_world 1)) = Inr ts \<longrightarrow>
           (\<forall>tk\<in>set ts. readyState tk = live) \<and> (\<exists>tk\<in>set ts. kind tk = video)"
    by (simp add: grant_def environment_camera_def video_track_def)
  have ok: "fst (switchCamera ?g None call_world)"
    by (simp add: switchCamera_def Let_def grant_def alloc_tracks_def call_world_def example_defs)
  have n: "next_track call_world = 2" "effects call_world = []"
    "facing_request (tracks call_world 1) = \<lparr>c_audio = False, c_video = Facing ''environment''\<rparr>"
    by (simp_all add: call_world_def example_defs facing_request_def)
  have s: "video_sender_track (snd (switchCamera ?g None call_world)) 0 1 = Some 2"
    by (simp add: switchCamera_def Let_def grant_def alloc_tracks_def set_sender_track_def
        video_sender_track_def environment_camera_def call_world_def example_defs)
  show ?thesis
    using C9_switch_keeps_live_track [of call_world 0
        "\<lparr>peerConnection = Some (example_connection ?ss)\<rparr>" "example_connection ?ss" 1 1
        ?g None "fst (switchCamera ?g None call_world)" "snd (switchCamera ?g None call_world)",
        OF _ _ _ f _ _ c] ok n s
    by (simp add: call_world_def example_defs)
qed

subsection \<open>initSIP\<close>

lemma registration_run_snoc:
  "registration_run (evs @ [e]) r = registration_step e (registration_run evs r)"
  by (simp add: registration_run_def)

lemma registration_inv_init: "registration_inv construct [] (initSIP construct)"
  by (cases construct) (simp_all add: registration_inv_def initSIP_def safeReject_def)

lemma registration_inv_step:
  assumes "registration_inv construct evs r"
  shows "registration_inv construct (evs @ [e]) (registration_step e r)"
proof (cases e)
  case StartResolved
  then show ?thesis using assms
    by (auto simp: registration_inv_def)
next
  case (StartRejected error)
  then show ?thesis using assms
    by (auto simp: registration_inv_def safeReject_def)
next
  case (StateChange s)
  then show ?thesis using assms
    by (cases s) (auto simp: registration_inv_def safeReject_def safeResolve_def)
next
  case (Elapse d)
  let ?r = "r\<lparr>clock := clock r + d\<rparr>"
  have i: "isPromiseSettled r = (promise r \<noteq> Pending)"
    "listening r = (StartResolved \<in> set evs)"
    "StartResolved \<notin> set evs \<longrightarrow> registrationTimeout r = None"
    "promise r = Pending \<and> StartResolved \<in> set evs \<longrightarrow>
       (\<exists>due. registrationTimeout r = Some due \<and> clock r < due \<and> due \<le> clock r + 10000)"
    "promise r = Resolved \<longrightarrow> StartResolved \<in> set evs \<and> StateChange Registered \<in> set evs"
    "construct = None \<and> StartResolved \<notin> set evs \<and> (\<forall>e\<in>set evs. \<not> start_rejection e) \<longrightarrow>
       promise r = Pending"
    "\<forall>error. construct = Some error \<longrightarrow> promise r = Rejected error"
    using assms by (simp_all add: registration_inv_def)
  have fires: "(\<exists>due. registrationTimeout r = Some due \<and> due \<le> clock r + d) \<and> \<not> isPromiseSettled r
      \<or> registration_step e r = ?r"
    using Elapse by (cases "registrationTimeout r") (auto simp: Let_def on_timeout_def)
  show ?thesis
  proof (cases "(\<exists>due. registrationTimeout r = Some due \<and> due \<le> clock r + d) \<and> \<not> isPromiseSettled r")
    case True
    then obtain due where due: "registrationTimeout r = Some due" "due \<le> clock r + d"
      and n: "\<not> isPromiseSettled r" by blast
    have started: "StartResolved \<in> set evs" using i(3) due(1) by auto
    have s: "registration_step e r = ?r\<lparr>isPromiseSettled := True, registrationTimeout := None,
          registrationFailed := registrationFailed r @ [registration_timed_out],
          promise := Rejected registration_timed_out\<rparr>"
      using Elapse due n i(1) by (simp add: Let_def on_timeout_def safeReject_def)
    have c: "construct = None" using i(7) i(1) n by (cases construct) auto
    show ?thesis
      unfolding s registration_inv_def using started i(2) c Elapse by simp
  next
    case False
    then have s: "registration_step e r = ?r" using fires by blast
    have keep: "promise r = Pending \<and> StartResolved \<in> set evs \<longrightarrow>
       (\<exists>due. registrationTimeout r = Some due \<and> clock r + d < due \<and> due \<le> clock r + d + 10000)"
    proof (intro impI)
      assume p: "promise r = Pending \<and> StartResolved \<in> set evs"
      then obtain due where due: "registrationTimeout r = Some due" "clock r < due"
        "due \<le> clock r + 10000" using i(4) by blast
      have "\<not> isPromiseSettled r" using p i(1) by simp
      then have "\<not> due \<le> clock r + d" using False due(1) by simp
      then show "\<exists>due. registrationTimeout r = Some due \<and> clock r + d < due \<and> due \<le> clock r + d + 10000"
        using due by auto
    qed
    show ?thesis
      unfolding s registration_inv_def using i(1,2,3,5,6,7) keep Elapse by simp
  qed
qed

lemma registration_inv_run:
  "registration_inv construct evs (registration_run evs (initSIP construct))"
proof (induction evs rule: rev_induct)
  case Nil
  then show ?case by (simp add: registration_run_def registration_inv_init)
next
  case (snoc e evs)
  then show ?case
    using registration_inv_step [of construct evs _ e] by (simp add: registration_run_snoc)
qed

lemma settled_step:
  "isPromiseSettled r \<Longrightarrow>
   isPromiseSettled (registration_step e r) \<and> promise (registration_step e r) = promise r"
proof (cases e)
  case (StateChange s)
  assume "isPromiseSettled r"
  then show ?thesis using StateChange
    by (cases s) (simp_all add: safeResolve_def safeReject_def)
next
  case (Elapse d)
  assume "isPromiseSettled r"
  then show ?thesis using Elapse
    by (simp add: Let_def on_timeout_def split: option.splits)
qed (simp_all add: safeReject_def)

lemma settled_run:
  "isPromiseSettled r \<Longrightarrow> promise (registration_run evs r) = promise r"
  unfolding registration_run_def
proof (induction evs arbitrary: r)
  case Nil
  then show ?case by simp
next
  case (Cons e evs)
  then show ?case using settled_step [of r e] by simp
qed

lemma quiet_run:
  assumes "\<forall>e\<in>set evs. quiet e"
    and "promise r = Pending" and "\<not> isPromiseSettled r"
    and "registrationTimeout r = Some due" and "clock r < due"
  shows "promise (registration_run evs r) =
           (if due \<le> clock r + elapsed evs then Rejected registration_timed_out else Pending)"
  using assms
proof (induction evs arbitrary: r)
  case Nil
  then show ?case by (simp add: registration_run_def)
next
  case (Cons e evs)
  have run: "registration_run (e # evs) r = registration_run evs (registration_step e r)"
    by (simp add: registration_run_def)
  have rest: "\<forall>x\<in>set evs. quiet x" using Cons.prems(1) by simp
  show ?case
  proof (cases e)
    case StartResolved
    then show ?thesis using Cons.prems(1) by simp
  next
    case (StartRejected error)
    then show ?thesis using Cons.prems(1) by simp
  next
    case (StateChange s)
    then have "registration_step e r = r"
      using Cons.prems(1) by (cases s) simp_all
    then have same: "registration_run (e # evs) r = registration_run evs r"
      using run by simp
    have "elapsed (e # evs) = elapsed evs"
      using StateChange by simp
    then show ?thesis
      unfolding same using Cons.IH [OF rest Cons.prems(2-5)] by simp
  next
    case (Elapse d)
    let ?r = "r\<lparr>clock := clock r + d\<rparr>"
    show ?thesis
    proof (cases "due \<le> clock r + d")
      case True
      then have s: "registration_step e r = safeReject registration_timed_out ?r"
        using Elapse Cons.prems(3,4) by (simp add: Let_def on_timeout_def)
      have "isPromiseSettled (safeReject registration_timed_out ?r)"
        "promise (safeReject registration_timed_out ?r) = Rejected registration_timed_out"
        using Cons.prems(2,3) by (simp_all add: safeReject_def)
      then have "promise (registration_run evs (registration_step e r)) = Rejected registration_timed_out"
        using settled_run [of "safeReject registration_timed_out ?r" evs] s by simp
      then have "promise (registration_run (e # evs) r) = Rejected registration_timed_out"
        unfolding run .
      moreover have "due \<le> clock r + elapsed (e # evs)"
        using True Elapse by simp
      ultimately show ?thesis by simp
    next
      case False
      then have s: "registration_step e r = ?r"
        using Elapse Cons.prems(4) by (simp add: Let_def)
      have "promise (registration_run evs ?r) =
           (if due \<le> clock ?r + elapsed evs then Rejected registration_timed_out else Pending)"
        using Cons.IH [of ?r] rest Cons.prems(2-4) False by simp
      then have "promise (registration_run (e # evs) r) =
           (if due \<le> clock ?r + elapsed evs then Rejected registration_timed_out else Pending)"
        unfolding run s .
      moreover have "clock ?r + elapsed evs = clock r + elapsed (e # evs)"
        using Elapse by simp
      ultimately show ?thesis by simp
    qed
  qed
qed

text \<open>
  C7 (as amended). Whatever events follow \<open>initSIP\<close>: if its promise is resolved, \<open>ua.start()\<close>
  has resolved and the registerer has changed to \<open>Registered\<close>. While the promise is pending
  after \<open>ua.start()\<close> resolved, a change to \<open>Unregistered\<close> rejects it with the registration
  error, and the timer is set and due within 10 seconds. The 10 seconds run from the moment
  \<open>ua.start()\<close> resolves: when nothing follows that moment but time and state changes other
  than \<open>Registered\<close> and \<open>Unregistered\<close>, the promise is pending for as long as less than
  10000 ms have passed and rejected with the timeout error from then on. When \<open>ua.start()\<close>
  rejects while the promise is pending, or constructing the user agent throws, the promise
  is rejected with that error; and for as long as \<open>ua.start()\<close> has not settled, the promise
  is pending and no timer is set.
\<close>

theorem C7_registration_promise:
  assumes "r = registration_run evs (initSIP construct)"
  shows "(promise r = Resolved \<longrightarrow> StartResolved \<in> set evs \<and> StateChange Registered \<in> set evs) \<and>
         (promise r = Pending \<and> StartResolved \<in> set evs \<longrightarrow>
            promise (registration_step (StateChange Registered) r) = Resolved \<and>
            promise (registration_step (StateChange Unregistered) r) = Rejected registration_failed \<and>
            (\<exists>due. registrationTimeout r = Some due \<and> clock r < due \<and> due \<le> clock r + 10000)) \<and>
         (promise r = Pending \<and> (\<forall>e\<in>set later. quiet e) \<longrightarrow>
            promise (registration_run later (registration_step StartResolved r)) =
              (if 10000 \<le> elapsed later then Rejected registration_timed_out else Pending)) \<and>
         (promise r = Pending \<longrightarrow>
            promise (registration_step (StartRejected error) r) = Rejected error) \<and>
         (construct = Some error \<longrightarrow> promise r = Rejected error) \<and>
         (construct = None \<and> StartResolved \<notin> set evs \<and> (\<forall>e\<in>set evs. \<not> start_rejection e) \<longrightarrow>
            promise r = Pending \<and> registrationTimeout r = None)"
proof -
  have inv: "registration_inv construct evs r"
    using registration_inv_run [of construct evs] assms by simp
  have a: "promise r = Resolved \<longrightarrow> StartResolved \<in> set evs \<and> StateChange Registered \<in> set evs"
    using inv by (simp add: registration_inv_def)
  have b: "promise r = Pending \<and> StartResolved \<in> set evs \<longrightarrow>
            promise (registration_step (StateChange Registered) r) = Resolved \<and>
            promise (registration_step (StateChange Unregistered) r) = Rejected registration_failed \<and>
            (\<exists>due. registrationTimeout r = Some due \<and> clock r < due \<and> due \<le> clock r + 10000)"
    using inv by (auto simp: registration_inv_def safeResolve_def safeReject_def)
  have c: "promise r = Pending \<and> (\<forall>e\<in>set later. quiet e) \<longrightarrow>
            promise (registration_run later (registration_step StartResolved r)) =
              (if 10000 \<le> elapsed later then Rejected registration_timed_out else Pending)"
  proof (intro impI, elim conjE)
    assume p: "promise r = Pending" and q: "\<forall>e\<in>set later. quiet e"
    let ?r = "registration_step StartResolved r"
    have n: "\<not> isPromiseSettled r" using inv p by (simp add: registration_inv_def)
    have "promise ?r = Pending" "\<not> isPromiseSettled ?r"
      "registrationTimeout ?r = Some (clock ?r + 10000)" "clock ?r < clock ?r + 10000"
      using p n by simp_all
    from quiet_run [OF q this]
    show "promise (registration_run later ?r) =
              (if 10000 \<le> elapsed later then Rejected registration_timed_out else Pending)"
      by simp
  qed
  have d: "promise r = Pending \<longrightarrow>
            promise (registration_step (StartRejected error) r) = Rejected error"
    using inv by (auto simp: registration_inv_def safeReject_def)
  have e: "construct = Some error \<longrightarrow> promise r = Rejected error"
    using inv by (simp add: registration_inv_def)
  have f: "construct = None \<and> StartResolved \<notin> set evs \<and> (\<forall>e\<in>set evs. \<not> start_rejection e) \<longrightarrow>
            promise r = Pending \<and> registrationTimeout r = None"
    using inv by (simp add: registration_inv_def)
  show ?thesis by (intro conjI a b c d e f)
qed

theorem C7_registration_promise_witness:
  "promise (registration_run [Elapse 300, StartResolved, Elapse 2000, StateChange Registered]
      (initSIP None)) = Resolved \<and>
   promise (registration_run [Elapse 300, StartResolved, Elapse 2000, StateChange Unregistered]
      (initSIP None)) = Rejected registration_failed \<and>
   promise (registration_run [Elapse 300, StartResolved, Elapse 9999] (initSIP None)) = Pending \<and>
   promise (registration_run [Elapse 300, StartResolved, Elapse 4000,
      StateChange RegistererTerminated, Elapse 6000] (initSIP None)) = Rejected registration_timed_out"
proof -
  define r where "r = registration_run [Elapse 300] (initSIP None)"
  define s where "s = registration_run [Elapse 300, StartResolved, Elapse 2000] (initSIP None)"
  have p: "promise r = Pending" "promise s = Pending"
    by (simp_all add: r_def s_def registration_run_def initSIP_def Let_def)
  have e1: "registration_run [Elapse 300, StartResolved, Elapse 2000, StateChange Registered]
      (initSIP None) = registration_step (StateChange Registered) s"
    and e2: "registration_run [Elapse 300, StartResolved, Elapse 2000, StateChange Unregistered]
      (initSIP None) = registration_step (StateChange Unregistered) s"
    and e3: "registration_run [Elapse 300, StartResolved, Elapse 9999] (initSIP None) =
      registration_run [Elapse 9999] (registration_step StartResolved r)"
    and e4: "registration_run [Elapse 300, StartResolved, Elapse 4000,
      StateChange RegistererTerminated, Elapse 6000] (initSIP None) =
      registration_run [Elapse 4000, StateChange RegistererTerminated, Elapse 6000]
        (registration_step StartResolved r)"
    unfolding r_def s_def registration_run_def by simp_all
  have started: "StartResolved \<in> set [Elapse 300, StartResolved, Elapse 2000]" by simp
  have q3: "\<forall>e\<in>set [Elapse 9999]. quiet e"
    and q4: "\<forall>e\<in>set [Elapse 4000, StateChange RegistererTerminated, Elapse 6000]. quiet e"
    by simp_all
  have l3: "\<not> 10000 \<le> elapsed [Elapse 9999]"
    and l4: "10000 \<le> elapsed [Elapse 4000, StateChange RegistererTerminated, Elapse 6000]"
    by simp_all
  note ts = C7_registration_promise [of s "[Elapse 300, StartResolved, Elapse 2000]" None "[]",
      OF s_def]
  note t3 = C7_registration_promise [of r "[Elapse 300]" None "[Elapse 9999]", OF r_def]
  note t4 = C7_registration_promise [of r "[Elapse 300]" None
      "[Elapse 4000, StateChange RegistererTerminated, Elapse 6000]", OF r_def]
  have c12: "promise (registration_step (StateChange Registered) s) = Resolved"
    "promise (registration_step (StateChange Unregistered) s) = Rejected registration_failed"
    using ts p(2) started by blast+
  have c3: "promise (registration_run [Elapse 9999] (registration_step StartResolved r)) = Pending"
    using t3 p(1) q3 l3 by presburger
  have c4: "promise (registration_run [Elapse 4000, StateChange RegistererTerminated, Elapse 6000]
        (registration_step StartResolved r)) = Rejected registration_timed_out"
    using t4 p(1) q4 l4 by presburger
  show ?thesis
    unfolding e1 e2 e3 e4 using c12 c3 c4 by blast
qed

text \<open>The claim as stated fails. When \<open>ua.start()\<close> rejects, no state of the registerer ever
  changes, and the promise is rejected with the error of \<open>ua.start()\<close>, which is neither the
  timeout error nor the registration error, however much time passes. When \<open>ua.start()\<close>
  resolves 8 seconds after the call, the promise is still pending 10 seconds after the
  call, with no state change. And for as long as \<open>ua.start()\<close> has not settled, no time
  rejects the promise.\<close>

theorem C7_counterexample:
  "promise (registration_run [Elapse 5000, StartRejected (Error ''WebSocket closed''), Elapse 60000]
      (initSIP None)) = Rejected (Error ''WebSocket closed'') \<and>
   Error ''WebSocket closed'' \<noteq> registration_timed_out \<and>
   Error ''WebSocket closed'' \<noteq> registration_failed \<and>
   promise (registration_run [Elapse 8000, StartResolved, Elapse 2000] (initSIP None)) = Pending \<and>
   promise (registration_run [Elapse 60000] (initSIP None)) = Pending"
  by (simp add: registration_run_def initSIP_def safeReject_def Let_def on_timeout_def
      registration_timed_out_def registration_failed_def)

end
